theory Spec2Isabelle
  imports Main "HOL-Library.Word"
begin

section \<open>Go library functions used by package screen\<close>

text \<open>
  Go strings are byte sequences and are modelled as \<^typ>\<open>string\<close>.  The library
  functions below are the ones \<^verbatim>\<open>screen.go\<close> calls; on ASCII text a rune is a byte,
  which is the case the models cover.
\<close>

subsection \<open>Package strings\<close>

fun HasPrefix :: "string \<Rightarrow> string \<Rightarrow> bool" where
  "HasPrefix s [] = True"
| "HasPrefix [] (p # ps) = False"
| "HasPrefix (c # cs) (p # ps) = (c = p \<and> HasPrefix cs ps)"

fun Contains :: "string \<Rightarrow> string \<Rightarrow> bool" where
  "Contains [] sub = (sub = [])"
| "Contains (c # cs) sub = (HasPrefix (c # cs) sub \<or> Contains cs sub)"

text \<open>\<^verbatim>\<open>strings.Split(s, sep)\<close> for a one-byte separator: always at least one piece.\<close>

fun Split :: "string \<Rightarrow> char \<Rightarrow> string list" where
  "Split [] sep = [] # []"
| "Split (c # cs) sep =
     (if c = sep then [] # Split cs sep
      else (case Split cs sep of [] \<Rightarrow> [c] # [] | p # ps \<Rightarrow> (c # p) # ps))"

text \<open>\<^verbatim>\<open>unicode.IsSpace\<close> on ASCII: tab, newline, vertical tab, form feed, carriage return, space.\<close>

definition IsSpace :: "char \<Rightarrow> bool" where
  "IsSpace c = (c \<in> set [CHR 0x09, CHR 0x0A, CHR 0x0B, CHR 0x0C, CHR 0x0D, CHR 0x20])"

fun fields_from :: "string \<Rightarrow> string \<Rightarrow> string list" where
  "fields_from cur [] = (if cur = [] then [] else [rev cur])"
| "fields_from cur (c # cs) =
     (if IsSpace c then (if cur = [] then fields_from [] cs else rev cur # fields_from [] cs)
      else fields_from (c # cur) cs)"

definition Fields :: "string \<Rightarrow> string list" where
  "Fields s = fields_from [] s"

fun Join :: "string list \<Rightarrow> string \<Rightarrow> string" where
  "Join [] sep = []"
| "Join [a] sep = a"
| "Join (a # b # rest) sep = a @ sep @ Join (b # rest) sep"

subsection \<open>Package strconv\<close>

definition digit_value :: "char \<Rightarrow> nat option" where
  "digit_value c =
     map_of [(CHR ''0'', 0), (CHR ''1'', 1), (CHR ''2'', 2), (CHR ''3'', 3), (CHR ''4'', 4),
             (CHR ''5'', 5), (CHR ''6'', 6), (CHR ''7'', 7), (CHR ''8'', 8), (CHR ''9'', 9)] c"

fun parse_digits :: "nat \<Rightarrow> string \<Rightarrow> nat option" where
  "parse_digits acc [] = Some acc"
| "parse_digits acc (c # cs) =
     (case digit_value c of None \<Rightarrow> None | Some d \<Rightarrow> parse_digits (acc * 10 + d) cs)"

text \<open>
  \<^verbatim>\<open>strconv.Atoi\<close> with a 64-bit \<^verbatim>\<open>int\<close>: an optional sign, at least one decimal digit,
  and a value in range; \<open>None\<close> is the error return.
\<close>

definition Atoi :: "string \<Rightarrow> int option" where
  "Atoi s =
     (case s of
        [] \<Rightarrow> None
      | c # cs \<Rightarrow>
          (let neg = (c = CHR ''-'');
               ds = (if c = CHR ''-'' \<or> c = CHR ''+'' then cs else s)
           in if ds = [] then None
              else (case parse_digits 0 ds of
                      None \<Rightarrow> None
                    | Some n \<Rightarrow>
                        (let v = (if neg then - int n else int n)
                         in if - (2 ^ 63) \<le> v \<and> v < 2 ^ 63 then Some v else None))))"

fun digits_of :: "nat \<Rightarrow> string" where
  "digits_of n =
     (if n < 10 then [''0123456789'' ! n]
      else digits_of (n div 10) @ [''0123456789'' ! (n mod 10)])"

definition Itoa :: "int \<Rightarrow> string" where
  "Itoa i = (if i < 0 then CHR ''-'' # digits_of (nat (- i)) else digits_of (nat i))"

subsection \<open>Package regexp\<close>

text \<open>
  A regular expression after parsing.  An \<open>atom\<close> matches exactly one character.
  \<open>Rep a lo hi greedy\<close> repeats an atom between \<open>lo\<close> and \<open>hi\<close> times
  (\<open>None\<close>: no upper bound), preferring more repetitions when greedy and fewer otherwise.
\<close>

datatype atom = Lit char | AnyNotNL | OneOf string | NoneOf string

datatype rx =
    Empty
  | Atom atom
  | Rep atom nat "nat option" bool
  | Seq rx rx
  | Alt rx rx
  | Group nat rx
  | BeginText
  | EndText

fun accepts :: "atom \<Rightarrow> char \<Rightarrow> bool" where
  "accepts (Lit c) x = (x = c)"
| "accepts AnyNotNL x = (x \<noteq> CHR 0x0A)"
| "accepts (OneOf cs) x = (x \<in> set cs)"
| "accepts (NoneOf cs) x = (x \<notin> set cs)"

text \<open>The Perl classes: \<^verbatim>\<open>\d\<close> is \<^verbatim>\<open>[0-9]\<close>, \<^verbatim>\<open>\s\<close> is \<^verbatim>\<open>[\t\n\f\r ]\<close>, \<^verbatim>\<open>\w\<close> is \<^verbatim>\<open>[0-9A-Za-z_]\<close>.\<close>

definition perl_d :: string where
  "perl_d = ''0123456789''"

definition perl_s :: string where
  "perl_s = [CHR 0x09, CHR 0x0A, CHR 0x0C, CHR 0x0D, CHR 0x20]"

definition alnum :: string where
  "alnum = ''0123456789ABCDEFGHIJKLMNOPQRSTUVWXYZabcdefghijklmnopqrstuvwxyz''"

definition perl_w :: string where
  "perl_w = alnum @ ''_''"

text \<open>
  Matching by backtracking.  A position is \<open>(at_start, rest, captures)\<close>: whether it is the
  beginning of the text, the text still to read, and the groups captured so far (latest
  first).  \<open>run r p\<close> lists every way \<open>r\<close> can match from \<open>p\<close>, in the order a
  backtracking search tries them; the package's leftmost-first rule picks the first.
\<close>

type_synonym captures = "(nat \<times> string) list"
type_synonym position = "bool \<times> string \<times> captures"

fun run :: "rx \<Rightarrow> position \<Rightarrow> position list" where
  "run Empty p = [p]"
| "run (Atom a) (b, s, caps) =
     (case s of [] \<Rightarrow> [] | x # xs \<Rightarrow> (if accepts a x then [(False, xs, caps)] else []))"
| "run (Rep a lo hi greedy) (b, s, caps) =
     (let n = length (takeWhile (accepts a) s);
          top = (case hi of None \<Rightarrow> n | Some h \<Rightarrow> min n h);
          counts = (if greedy then rev [lo ..< Suc top] else [lo ..< Suc top])
      in map (\<lambda>k. (b \<and> k = 0, drop k s, caps)) counts)"
| "run (Seq r1 r2) p = concat (map (run r2) (run r1 p))"
| "run (Alt r1 r2) p = run r1 p @ run r2 p"
| "run (Group n r) (b, s, caps) =
     map (\<lambda>(b', s', caps'). (b', s', (n, take (length s - length s') s) # caps'))
       (run r (b, s, caps))"
| "run BeginText (b, s, caps) = (if b then [(b, s, caps)] else [])"
| "run EndText (b, s, caps) = (if s = [] then [(b, s, caps)] else [])"

text \<open>
  The leftmost match at or after the current position: how many characters are skipped
  before it starts, how long it is, and its captures.
\<close>

fun search :: "rx \<Rightarrow> bool \<Rightarrow> string \<Rightarrow> (nat \<times> nat \<times> captures) option" where
  "search r b [] =
     (case run r (b, [], []) of [] \<Rightarrow> None | (b', s', caps) # _ \<Rightarrow> Some (0, 0, caps))"
| "search r b (x # xs) =
     (case run r (b, x # xs, []) of
        (b', s', caps) # _ \<Rightarrow> Some (0, length (x # xs) - length s', caps)
      | [] \<Rightarrow>
          (case search r False xs of
             None \<Rightarrow> None
           | Some (k, l, caps) \<Rightarrow> Some (Suc k, l, caps)))"

definition submatch :: "captures \<Rightarrow> nat \<Rightarrow> string" where
  "submatch caps i = (case map_of caps i of None \<Rightarrow> [] | Some g \<Rightarrow> g)"

lemma run_rest_le: "(b', s', caps') \<in> set (run r (b, s, caps)) \<Longrightarrow> length s' \<le> length s"
proof (induction r arbitrary: b s caps b' s' caps')
  case (Atom a)
  then show ?case by (auto split: list.splits if_splits)
next
  case (Rep a lo hi greedy)
  then show ?case by (auto simp: Let_def split: if_splits)
next
  case (Seq r1 r2)
  from Seq.prems obtain b1 s1 c1 where
    mid: "(b1, s1, c1) \<in> set (run r1 (b, s, caps))" and
    fin: "(b', s', caps') \<in> set (run r2 (b1, s1, c1))"
    by auto
  from Seq.IH(1) [OF mid] Seq.IH(2) [OF fin] show ?case by simp
next
  case (Alt r1 r2)
  then show ?case by auto
next
  case (Group n r)
  then show ?case by auto
qed (auto split: if_splits)

lemma search_le: "search r b s = Some (k, l, caps) \<Longrightarrow> k + l \<le> length s"
proof (induction s arbitrary: b k l caps)
  case Nil
  then show ?case by (auto split: list.splits)
next
  case (Cons x xs)
  show ?case
  proof (cases "run r (b, x # xs, [])")
    case Nil
    with Cons.prems obtain k' where "search r False xs = Some (k', l, caps)" "k = Suc k'"
      by (auto split: option.splits)
    with Cons.IH show ?thesis by fastforce
  next
    case (Cons p ps)
    with Cons.prems show ?thesis by (auto split: prod.splits)
  qed
qed

text \<open>
  \<^verbatim>\<open>(*Regexp).FindAllStringSubmatch(s, -1)\<close>: successive non-overlapping matches.  The loop
  state is the text from the current position on, whether that position is the beginning of
  the text, and whether the previous match ended exactly there: an empty match directly
  after the previous match is dropped, and after an empty match the search moves on by one
  character.  Each match is the whole match followed by the text of groups 1 to \<open>ncap\<close>
  (empty for a group that took no part).
\<close>

function allMatches :: "rx \<Rightarrow> nat \<Rightarrow> bool \<Rightarrow> string \<Rightarrow> bool \<Rightarrow> string list list" where
  "allMatches r ncap b rest prev_here =
     (case search r b rest of
        None \<Rightarrow> []
      | Some (k, l, caps) \<Rightarrow>
          (let found = take l (drop k rest) # map (submatch caps) [1 ..< Suc ncap]
           in if k + l = 0
              then (if prev_here then [] else [found])
                   @ (case rest of [] \<Rightarrow> [] | x # rest' \<Rightarrow> allMatches r ncap False rest' False)
              else found # allMatches r ncap False (drop (k + l) rest) True))"
  by pat_completeness auto
termination
proof (relation "measure (\<lambda>(r, ncap, b, rest, prev_here). length rest)")
  fix r :: rx and ncap :: nat and b :: bool and rest :: string and prev_here :: bool
    and x2 :: "nat \<times> nat \<times> captures" and k :: nat and y :: "nat \<times> captures" and l :: nat
    and caps :: captures and found :: "string list"
  assume "search r b rest = Some x2" "(k, y) = x2" "(l, caps) = y" "k + l \<noteq> 0"
  then have "search r b rest = Some (k, l, caps)" by simp
  from search_le [OF this] \<open>k + l \<noteq> 0\<close>
  show "((r, ncap, False, drop (k + l) rest, True), r, ncap, b, rest, prev_here)
          \<in> measure (\<lambda>(r, ncap, b, rest, prev_here). length rest)"
    by (simp, arith)
qed auto

declare allMatches.simps [simp del]

definition FindAllStringSubmatch :: "rx \<times> nat \<Rightarrow> string \<Rightarrow> string list list" where
  "FindAllStringSubmatch re s = allMatches (fst re) (snd re) True s False"

text \<open>
  Parsing.  The syntax covered is the part of the package's Perl syntax made of literal
  characters, \<^verbatim>\<open>.\<close>, \<^verbatim>\<open>^\<close>, \<^verbatim>\<open>$\<close>, the escapes \<^verbatim>\<open>\d \D \s \S \w \W\<close>, a backslash
  before a character that is not a letter or digit, capturing groups, \<^verbatim>\<open>|\<close>, and
  \<^verbatim>\<open>* + ?\<close> (greedy, or lazy with a further \<^verbatim>\<open>?\<close>) applied to a single character.
  Everything else (\<^verbatim>\<open>[\<close>, \<^verbatim>\<open>{\<close>, \<^verbatim>\<open>(?\<close>, the other escapes, a repeated group, bytes
  outside ASCII, a pattern of more than 256 bytes) is reported as \<open>Beyond\<close>: what the
  package does with such a pattern is a parameter of the environment below.

  The parser keeps, as the package's does, the groups opened and not yet closed; for each
  of them the alternatives completed so far and the current concatenation (both latest
  first).  \<open>lastRepeat\<close> says that the previous token was a repetition.
\<close>

datatype token =
    TAtom atom
  | TLParen
  | TRParen
  | TBar
  | TRepeat nat "nat option" bool
  | TBeginText
  | TEndText
  | TTrailingBackslash
  | TBeyond

definition backslash :: char where
  "backslash = CHR 0x5C"

definition escape :: "char \<Rightarrow> token" where
  "escape e =
     (if e = CHR ''d'' then TAtom (OneOf perl_d)
      else if e = CHR ''D'' then TAtom (NoneOf perl_d)
      else if e = CHR ''s'' then TAtom (OneOf perl_s)
      else if e = CHR ''S'' then TAtom (NoneOf perl_s)
      else if e = CHR ''w'' then TAtom (OneOf perl_w)
      else if e = CHR ''W'' then TAtom (NoneOf perl_w)
      else if e \<in> set alnum then TBeyond
      else TAtom (Lit e))"

definition repeat_op :: "char \<Rightarrow> bool \<Rightarrow> token" where
  "repeat_op c greedy =
     (if c = CHR ''*'' then TRepeat 0 None greedy
      else if c = CHR ''+'' then TRepeat 1 None greedy
      else TRepeat 0 (Some 1) greedy)"

definition single :: "char \<Rightarrow> token" where
  "single c =
     (if c = CHR ''|'' then TBar
      else if c = CHR '')'' then TRParen
      else if c = CHR ''^'' then TBeginText
      else if c = CHR ''$'' then TEndText
      else if c = CHR ''.'' then TAtom AnyNotNL
      else if c = CHR ''['' \<or> c = CHR ''{'' then TBeyond
      else TAtom (Lit c))"

fun lex :: "string \<Rightarrow> token list" where
  "lex [] = []"
| "lex (c # t) =
     (if c = backslash then
        (case t of [] \<Rightarrow> [TTrailingBackslash] | e # t' \<Rightarrow> escape e # lex t')
      else if c = CHR ''*'' \<or> c = CHR ''+'' \<or> c = CHR ''?'' then
        (case t of
           [] \<Rightarrow> [repeat_op c True]
         | q # t' \<Rightarrow> if q = CHR ''?'' then repeat_op c False # lex t' else repeat_op c True # lex t)
      else if c = CHR ''('' then
        (case t of
           [] \<Rightarrow> [TLParen]
         | q # t' \<Rightarrow> if q = CHR ''?'' then [TBeyond] else TLParen # lex t)
      else single c # lex t)"

fun mk_seq :: "rx list \<Rightarrow> rx" where
  "mk_seq [] = Empty"
| "mk_seq [r] = r"
| "mk_seq (r # rs) = Seq r (mk_seq rs)"

fun mk_alt :: "rx list \<Rightarrow> rx" where
  "mk_alt [] = Empty"
| "mk_alt [r] = r"
| "mk_alt (r # rs) = Alt r (mk_alt rs)"

definition finish :: "rx list \<Rightarrow> rx list \<Rightarrow> rx" where
  "finish alts seq = mk_alt (rev (mk_seq (rev seq) # alts))"

datatype compiled = Compiled rx nat | SyntaxError | Beyond

type_synonym frame = "nat \<times> rx list \<times> rx list"

fun parse :: "token list \<Rightarrow> bool \<Rightarrow> nat \<Rightarrow> frame list \<Rightarrow> rx list \<Rightarrow> rx list \<Rightarrow> compiled" where
  "parse [] lastRepeat ncap stack alts seq =
     (if stack = [] then Compiled (finish alts seq) ncap else SyntaxError)"
| "parse (TAtom a # ts) lastRepeat ncap stack alts seq =
     parse ts False ncap stack alts (Atom a # seq)"
| "parse (TBeginText # ts) lastRepeat ncap stack alts seq =
     parse ts False ncap stack alts (BeginText # seq)"
| "parse (TEndText # ts) lastRepeat ncap stack alts seq =
     parse ts False ncap stack alts (EndText # seq)"
| "parse (TLParen # ts) lastRepeat ncap stack alts seq =
     parse ts False (Suc ncap) ((Suc ncap, alts, seq) # stack) [] []"
| "parse (TBar # ts) lastRepeat ncap stack alts seq =
     parse ts False ncap stack (mk_seq (rev seq) # alts) []"
| "parse (TRParen # ts) lastRepeat ncap stack alts seq =
     (case stack of
        [] \<Rightarrow> SyntaxError
      | (n, alts', seq') # stack' \<Rightarrow>
          parse ts False ncap stack' alts' (Group n (finish alts seq) # seq'))"
| "parse (TRepeat lo hi greedy # ts) lastRepeat ncap stack alts seq =
     (if lastRepeat then SyntaxError
      else (case seq of
              [] \<Rightarrow> SyntaxError
            | Atom a # seq' \<Rightarrow> parse ts True ncap stack alts (Rep a lo hi greedy # seq')
            | _ # seq' \<Rightarrow> Beyond))"
| "parse (TTrailingBackslash # ts) lastRepeat ncap stack alts seq = SyntaxError"
| "parse (TBeyond # ts) lastRepeat ncap stack alts seq = Beyond"

definition regexp_Compile :: "string \<Rightarrow> compiled" where
  "regexp_Compile expr =
     (if 256 < length expr \<or> list_ex digit7 expr then Beyond
      else parse (lex expr) False 0 [] [] [])"

text \<open>
  The pattern \<^verbatim>\<open>/[.!:]{0,3}\|?$\<close> that \<^verbatim>\<open>Exec\<close> hands to \<^verbatim>\<open>regexp.MatchString\<close>, parsed: a
  slash, up to three of \<^verbatim>\<open>.\<close> \<^verbatim>\<open>!\<close> \<^verbatim>\<open>:\<close>, an optional bar, the end of the text.
  \<^verbatim>\<open>MatchString\<close> reports whether the text contains a match anywhere.
\<close>

definition fdpat_rx :: rx where
  "fdpat_rx =
     Seq (Atom (Lit (CHR ''/'')))
       (Seq (Rep (OneOf ''.!:'') 0 (Some 3) True)
          (Seq (Rep (Lit (CHR ''|'')) 0 (Some 1) True) EndText))"

definition MatchString :: "rx \<Rightarrow> string \<Rightarrow> bool" where
  "MatchString r s = (search r True s \<noteq> None)"

text \<open>
  The grammar of \<open>fdpat\<close> as the specification words it, for comparison with the pattern
  of the code: at most three of \<^verbatim>\<open>.\<close> \<^verbatim>\<open>!\<close> \<^verbatim>\<open>:\<close>, optionally followed by a bar, and nothing
  else.
\<close>

definition spec_fdpat_grammar :: "string \<Rightarrow> bool" where
  "spec_fdpat_grammar s =
     (let marks = takeWhile (\<lambda>c. c \<in> set ''.!:'') s;
          rest = dropWhile (\<lambda>c. c \<in> set ''.!:'') s
      in length marks \<le> 3 \<and> (rest = [] \<or> rest = ''|''))"

section \<open>Errors, the outside world and the package state\<close>

datatype ctx_err = Canceled | DeadlineExceeded

text \<open>
  The error values of the package: \<^verbatim>\<open>&os.SyscallError{Syscall: .., Err: errors.New(..)}\<close>,
  the sentinel \<^verbatim>\<open>os.ErrNotExist\<close>, \<^verbatim>\<open>errors.New(..)\<close>, the \<^verbatim>\<open>*PathError\<close> of a failed
  \<^verbatim>\<open>os.Stat\<close> (operation, path, errno) and the error of a finished context.
\<close>

datatype error =
    SyscallError string string
  | ErrNotExist
  | ErrorString string
  | PathError string string nat
  | ContextError ctx_err

text \<open>The texts of \<^verbatim>\<open>os.ErrInvalid\<close>, \<^verbatim>\<open>os.ErrExist\<close> and \<^verbatim>\<open>os.ErrNotExist\<close>.\<close>

definition ErrInvalid_text :: string where
  "ErrInvalid_text = ''invalid argument''"

definition ErrExist_text :: string where
  "ErrExist_text = ''file already exists''"

definition ErrNotExist_text :: string where
  "ErrNotExist_text = ''file does not exist''"

definition ENOENT :: nat where
  "ENOENT = 2"

text \<open>
  \<^verbatim>\<open>os.IsNotExist\<close>: false on \<^verbatim>\<open>nil\<close>; it unwraps a \<^verbatim>\<open>SyscallError\<close> and a
  \<^verbatim>\<open>PathError\<close> and compares what is inside with \<^verbatim>\<open>ErrNotExist\<close> and \<^verbatim>\<open>ENOENT\<close>.
\<close>

fun IsNotExist :: "error option \<Rightarrow> bool" where
  "IsNotExist None = False"
| "IsNotExist (Some ErrNotExist) = True"
| "IsNotExist (Some (PathError opn path errno)) = (errno = ENOENT)"
| "IsNotExist (Some (SyscallError call msg)) = False"
| "IsNotExist (Some (ErrorString msg)) = False"
| "IsNotExist (Some (ContextError c)) = False"

text \<open>A call returns a value, returns an error, or panics.\<close>

datatype 'a result = Ok 'a | Err error | Panic

fun error_of :: "'a result \<Rightarrow> error option" where
  "error_of (Err x) = Some x"
| "error_of r = None"

text \<open>
  What a finished external command leaves behind: the chunks it wrote, each to standard
  output or standard error, in the order written, and the text of the error of running it
  (\<^verbatim>\<open>exit status 1\<close>), \<open>None\<close> when it exited with status zero.
\<close>

datatype stream = Stdout | Stderr

record finished =
  written :: "(stream \<times> string) list"
  failure :: "string option"

text \<open>Everything the package does to the outside world, in order.\<close>

datatype event =
    Run string "string list"
  | Stat string
  | Truncate string
  | Sleep nat
  | Lock nat
  | Unlock nat

text \<open>
  The environment answers each request; the answer may depend on everything done before.
  \<open>regexp_beyond pattern text\<close> is what \<^verbatim>\<open>regexp.Compile\<close> followed by
  \<^verbatim>\<open>FindAllStringSubmatch(text, -1)\<close> yields for a pattern outside the syntax modelled
  above, \<open>None\<close> when the pattern does not compile.
\<close>

record env =
  command :: "event list \<Rightarrow> string \<Rightarrow> string list \<Rightarrow> finished"
  stat :: "event list \<Rightarrow> string \<Rightarrow> nat option"
  regexp_beyond :: "string \<Rightarrow> string \<Rightarrow> string list list option"

text \<open>
  The state: the events so far, the package variable \<^verbatim>\<open>mutexes\<close> (a \<^verbatim>\<open>sync.Map\<close> from
  names to mutex pointers), and the number of mutexes allocated, which is the address of
  the next one.
\<close>

record state =
  trace :: "event list"
  mutexes :: "string \<rightharpoonup> nat"
  allocated :: nat

record Screen =
  Name :: string
  Mutex :: "nat option"
  Process :: "int option"

definition emit :: "event \<Rightarrow> state \<Rightarrow> state" where
  "emit ev st = st\<lparr>trace := trace st @ [ev]\<rparr>"

definition CombinedOutput :: "env \<Rightarrow> string \<Rightarrow> string list \<Rightarrow> state \<Rightarrow> (string \<times> string option) \<times> state" where
  "CombinedOutput e prog args st =
     (let p = command e (trace st) prog args
      in ((concat (map snd (written p)), failure p), emit (Run prog args) st))"

definition Output :: "env \<Rightarrow> string \<Rightarrow> string list \<Rightarrow> state \<Rightarrow> (string \<times> string option) \<times> state" where
  "Output e prog args st =
     (let p = command e (trace st) prog args
      in ((concat (map snd (filter (\<lambda>w. fst w = Stdout) (written p))), failure p),
          emit (Run prog args) st))"

definition os_Stat :: "env \<Rightarrow> string \<Rightarrow> state \<Rightarrow> error option \<times> state" where
  "os_Stat e path st =
     (map_option (PathError ''stat'' path) (stat e (trace st) path), emit (Stat path) st)"

definition new_Mutex :: "state \<Rightarrow> nat \<times> state" where
  "new_Mutex st = (allocated st, st\<lparr>allocated := Suc (allocated st)\<rparr>)"

definition LoadOrStore :: "string \<Rightarrow> nat \<Rightarrow> state \<Rightarrow> nat \<times> state" where
  "LoadOrStore key val st =
     (case mutexes st key of
        Some actual \<Rightarrow> (actual, st)
      | None \<Rightarrow> (val, st\<lparr>mutexes := (mutexes st)(key \<mapsto> val)\<rparr>))"

section \<open>screen.go\<close>

definition screenExec :: string where
  "screenExec = ''/usr/bin/screen''"

subsection \<open>Get\<close>

text \<open>\<^verbatim>\<open>fmt.Sprintf("\\s(\\d+)\\.(%s)\\s", name)\<close>: the name goes into the pattern as it is.\<close>

definition Sprintf_pattern :: "string \<Rightarrow> string" where
  "Sprintf_pattern name =
     backslash # ''s('' @ backslash # ''d+)'' @ backslash # ''.('' @ name @ '')'' @ backslash # ''s''"

text \<open>
  \<^verbatim>\<open>regexp.Compile\<close> and \<^verbatim>\<open>r.FindAllStringSubmatch(out, -1)\<close>.  The error of \<^verbatim>\<open>Compile\<close> is
  dropped by the source, so a pattern that does not compile leaves \<^verbatim>\<open>r\<close> nil and the
  method call panics: \<open>None\<close>.
\<close>

definition find_all :: "env \<Rightarrow> string \<Rightarrow> string \<Rightarrow> string list list option" where
  "find_all e expr out =
     (case regexp_Compile expr of
        Compiled r ncap \<Rightarrow> Some (FindAllStringSubmatch (r, ncap) out)
      | SyntaxError \<Rightarrow> None
      | Beyond \<Rightarrow> regexp_beyond e expr out)"

text \<open>
  The loop over the matches: the first one whose second group is the name; \<^verbatim>\<open>match[2]\<close>
  panics on a match with fewer than three entries.
\<close>

fun check_all_lines :: "string \<Rightarrow> string list list \<Rightarrow> string list option result" where
  "check_all_lines name [] = Ok None"
| "check_all_lines name (match # rest) =
     (if length match \<le> 2 then Panic
      else if match ! 2 \<noteq> name then check_all_lines name rest
      else Ok (Some match))"

definition Get :: "env \<Rightarrow> string \<Rightarrow> state \<Rightarrow> Screen result \<times> state" where
  "Get e name st =
     (if name = [] then (Err (SyscallError ErrInvalid_text ''screen name cannot be empty''), st)
      else
        (let (res, st1) = CombinedOutput e ''screen'' [''-ls'', name] st;
             out = fst res
         in if Contains out ''No Sockets found in'' then (Err ErrNotExist, st1)
            else
              (case find_all e (Sprintf_pattern name) out of
                 None \<Rightarrow> (Panic, st1)
               | Some matches \<Rightarrow>
                   (case check_all_lines name matches of
                      Panic \<Rightarrow> (Panic, st1)
                    | Err x \<Rightarrow> (Err x, st1)
                    | Ok None \<Rightarrow> (Err ErrNotExist, st1)
                    | Ok (Some match) \<Rightarrow>
                        (let (newM, st2) = new_Mutex st1;
                             (m, st3) = LoadOrStore name newM st2
                         in (Ok \<lparr>Name = name, Mutex = Some m, Process = Atoi (match ! 1)\<rparr>,
                             st3))))))"

subsection \<open>GetAll\<close>

fun GetAll_loop :: "string list \<Rightarrow> Screen list \<Rightarrow> state \<Rightarrow> Screen list result \<times> state" where
  "GetAll_loop [] res st = (Ok res, st)"
| "GetAll_loop (line # rest) res st =
     (case Fields line of
        [] \<Rightarrow> (Panic, st)
      | subject # _ \<Rightarrow>
          (case Split subject (CHR ''.'') of
             pid # nm # _ \<Rightarrow>
               (let (newM, st1) = new_Mutex st;
                    (m, st2) = LoadOrStore nm newM st1
                in GetAll_loop rest
                     (res @ [\<lparr>Name = nm, Mutex = Some m, Process = Atoi pid\<rparr>]) st2)
           | _ \<Rightarrow> (Panic, st)))"

definition GetAll :: "env \<Rightarrow> state \<Rightarrow> Screen list result \<times> state" where
  "GetAll e st =
     (let (res, st1) = CombinedOutput e ''screen'' [''-ls''] st;
          out = fst res
      in if Contains out ''No Sockets found in'' then (Ok [], st1)
         else GetAll_loop (butlast (tl (Split out (CHR 0x0A)))) [] st1)"

subsection \<open>New\<close>

text \<open>
  The context is what \<^verbatim>\<open>ctx.Err()\<close> answers after the events so far.  The loop that waits
  for the screen to come up has no bound of its own: \<open>None\<close> is the run that never
  returns.
\<close>

type_synonym Context = "event list \<Rightarrow> ctx_err option"

partial_function (option) wait_for_screen ::
  "env \<Rightarrow> Context \<Rightarrow> string \<Rightarrow> state \<Rightarrow> (Screen result \<times> state) option" where
  "wait_for_screen e ctx name st =
     (case ctx (trace st) of
        Some c \<Rightarrow> Some (Err (ContextError c), st)
      | None \<Rightarrow>
          (let got = Get e name (emit (Sleep 100) st)
           in if IsNotExist (error_of (fst got))
              then wait_for_screen e ctx name (snd got)
              else Some got))"

declare wait_for_screen.simps [code]

definition New :: "env \<Rightarrow> Context \<Rightarrow> string \<Rightarrow> string \<Rightarrow> state \<Rightarrow> (Screen result \<times> state) option" where
  "New e ctx name shell st =
     (let (existing, st1) = Get e name st
      in if existing = Panic then Some (Panic, st1)
         else if \<not> IsNotExist (error_of existing)
         then Some (Err (SyscallError ErrExist_text ''screen already exists''), st1)
         else
           (let (res, st2) = CombinedOutput e screenExec [''-dmS'', name, shell] st1
            in if snd res \<noteq> None then Some (Err (ErrorString (fst res)), st2)
               else wait_for_screen e ctx name st2))"

subsection \<open>Builtin functions\<close>

text \<open>\<^verbatim>\<open>isOnline\<close>: whether \<^verbatim>\<open>Get(s.Name)\<close> returned no error; \<open>None\<close> when it panicked.\<close>

definition isOnline :: "env \<Rightarrow> Screen \<Rightarrow> state \<Rightarrow> bool option \<times> state" where
  "isOnline e s st =
     (case Get e (Name s) st of
        (Ok s', st') \<Rightarrow> (Some True, st')
      | (Err x, st') \<Rightarrow> (Some False, st')
      | (Panic, st') \<Rightarrow> (None, st'))"

text \<open>
  \<^verbatim>\<open>s.Mutex.Lock(); defer s.Mutex.Unlock()\<close> around a body: a nil mutex panics, and the
  unlock runs however the body ends.
\<close>

definition locked :: "Screen \<Rightarrow> (state \<Rightarrow> 'a result \<times> state) \<Rightarrow> state \<Rightarrow> 'a result \<times> state" where
  "locked s body st =
     (case Mutex s of
        None \<Rightarrow> (Panic, st)
      | Some m \<Rightarrow> (let (r, st') = body (emit (Lock m) st) in (r, emit (Unlock m) st')))"

definition screen_not_found :: error where
  "screen_not_found = SyscallError ErrNotExist_text ''screen not found''"

text \<open>
  One control command: \<^verbatim>\<open>exec.Command(screenExec, args...).CombinedOutput()\<close>, and
  \<^verbatim>\<open>errors.New(string(out))\<close> when it fails.
\<close>

definition control :: "env \<Rightarrow> string list \<Rightarrow> state \<Rightarrow> unit result \<times> state" where
  "control e args st =
     (let (res, st') = CombinedOutput e screenExec args st
      in if snd res \<noteq> None then (Err (ErrorString (fst res)), st') else (Ok (), st'))"

definition builtinTemplate :: "env \<Rightarrow> Screen \<Rightarrow> string \<Rightarrow> state \<Rightarrow> unit result \<times> state" where
  "builtinTemplate e s cmd st =
     locked s (\<lambda>st.
       case isOnline e s st of
         (None, st1) \<Rightarrow> (Panic, st1)
       | (Some False, st1) \<Rightarrow> (Err screen_not_found, st1)
       | (Some True, st1) \<Rightarrow> control e [''-S'', Name s, ''-X'', cmd] st1) st"

definition builtinTemplateArgs :: "env \<Rightarrow> Screen \<Rightarrow> string \<Rightarrow> string list \<Rightarrow> state \<Rightarrow> unit result \<times> state" where
  "builtinTemplateArgs e s cmd args st =
     locked s (\<lambda>st.
       case isOnline e s st of
         (None, st1) \<Rightarrow> (Panic, st1)
       | (Some False, st1) \<Rightarrow> (Err screen_not_found, st1)
       | (Some True, st1) \<Rightarrow>
           (let (res, st2) = Output e screenExec [''-S'', Name s, ''-X'', cmd, Join args '' ''] st1
            in case snd res of
                 Some err \<Rightarrow> (Err (ErrorString (fst res @ err)), st2)
               | None \<Rightarrow> (Ok (), st2))) st"

definition Quit :: "env \<Rightarrow> Screen \<Rightarrow> state \<Rightarrow> unit result \<times> state" where
  "Quit e s = builtinTemplate e s ''quit''"

definition Kill :: "env \<Rightarrow> Screen \<Rightarrow> state \<Rightarrow> unit result \<times> state" where
  "Kill e s = builtinTemplate e s ''kill''"

definition Clear :: "env \<Rightarrow> Screen \<Rightarrow> state \<Rightarrow> unit result \<times> state" where
  "Clear e s = builtinTemplate e s ''clear''"

definition Stuff :: "env \<Rightarrow> Screen \<Rightarrow> string list \<Rightarrow> state \<Rightarrow> unit result \<times> state" where
  "Stuff e s commands = builtinTemplateArgs e s ''stuff'' commands"

definition Chdir :: "env \<Rightarrow> Screen \<Rightarrow> string \<Rightarrow> state \<Rightarrow> unit result \<times> state" where
  "Chdir e s path st =
     locked s (\<lambda>st.
       case os_Stat e path st of
         (Some err, st1) \<Rightarrow> (Err err, st1)
       | (None, st1) \<Rightarrow> control e [''-S'', Name s, ''-X'', ''chdir'', path] st1) st"

definition Exec :: "env \<Rightarrow> Screen \<Rightarrow> string \<Rightarrow> string \<Rightarrow> string list \<Rightarrow> state \<Rightarrow> unit result \<times> state" where
  "Exec e s fdpat cmd args st =
     locked s (\<lambda>st.
       case isOnline e s st of
         (None, st1) \<Rightarrow> (Panic, st1)
       | (Some False, st1) \<Rightarrow> (Err screen_not_found, st1)
       | (Some True, st1) \<Rightarrow>
           (if fdpat = [] then control e ([''-S'', Name s, ''-X'', ''exec'', fdpat, cmd] @ args) st1
            else if \<not> MatchString fdpat_rx fdpat
            then (Err (SyscallError ErrInvalid_text ''invalid fdpat''), st1)
            else control e ([''-S'', Name s, ''-X'', ''exec'', fdpat, cmd] @ args) st1)) st"

definition Hardcopy :: "env \<Rightarrow> Screen \<Rightarrow> string \<Rightarrow> bool \<Rightarrow> state \<Rightarrow> unit result \<times> state" where
  "Hardcopy e s path append' st =
     locked s (\<lambda>st.
       case isOnline e s st of
         (None, st1) \<Rightarrow> (Panic, st1)
       | (Some False, st1) \<Rightarrow> (Err screen_not_found, st1)
       | (Some True, st1) \<Rightarrow>
           (let appendString = (if append' then ''on'' else ''off'')
            in case control e [''-S'', Name s, ''-X'', ''hardcopy_append'', appendString] st1 of
                 (Ok u, st2) \<Rightarrow> control e [''-S'', Name s, ''-X'', ''hardcopy'', path] st2
               | failed \<Rightarrow> failed)) st"

text \<open>
  \<^verbatim>\<open>Log\<close>.  The flush interval is a \<^verbatim>\<open>uint\<close>, converted with \<^verbatim>\<open>int(flushInterval)\<close>.  The
  result of \<^verbatim>\<open>os.Truncate\<close> is dropped by the source.
\<close>

definition Log :: "env \<Rightarrow> Screen \<Rightarrow> string \<Rightarrow> bool \<Rightarrow> 64 word \<Rightarrow> state \<Rightarrow> unit result \<times> state" where
  "Log e s path append' flushInterval st =
     locked s (\<lambda>st.
       case isOnline e s st of
         (None, st1) \<Rightarrow> (Panic, st1)
       | (Some False, st1) \<Rightarrow> (Err screen_not_found, st1)
       | (Some True, st1) \<Rightarrow>
           (let commands = (\<lambda>st3.
                  case control e [''-S'', Name s, ''-X'', ''logfile'', path] st3 of
                    (Ok u, st4) \<Rightarrow>
                      (case control e [''-S'', Name s, ''-X'', ''logfile'', ''flush'',
                                       Itoa (sint flushInterval)] st4 of
                         (Ok u, st5) \<Rightarrow>
                           (let toggle = (if path = [] then ''off'' else ''on'')
                            in control e [''-S'', Name s, ''-X'', ''log'', toggle] st5)
                       | failed \<Rightarrow> failed)
                  | failed \<Rightarrow> failed)
            in case os_Stat e path st1 of
                 (None, st2) \<Rightarrow> commands st2
               | (Some err, st2) \<Rightarrow>
                   (if append' then commands (emit (Truncate path) st2)
                    else if \<not> IsNotExist (Some err) then (Err err, st2)
                    else commands st2))) st"

section \<open>Observing a call\<close>

text \<open>What a caller and the outside world see of a call: its result and the events so far.\<close>

fun outcome :: "'a result \<times> state \<Rightarrow> 'a result \<times> event list" where
  "outcome (r, st) = (r, trace st)"

definition initial :: state where
  "initial = \<lparr>trace = [], mutexes = Map.empty, allocated = 0\<rparr>"

text \<open>
  An environment in which every command writes \<open>body\<close> to standard output and exits with
  status zero, every \<^verbatim>\<open>os.Stat\<close> succeeds, and no pattern beyond the modelled syntax
  compiles.
\<close>

definition answering :: "string \<Rightarrow> env" where
  "answering body =
     \<lparr>command = (\<lambda>tr prog args. \<lparr>written = [(Stdout, body)], failure = None\<rparr>),
      stat = (\<lambda>tr path. None),
      regexp_beyond = (\<lambda>expr text. None)\<rparr>"

definition never_done :: Context where
  "never_done tr = None"


section \<open>Discovery calls in sequence\<close>

text \<open>
  The discovery operations are \<^verbatim>\<open>Get\<close> and \<^verbatim>\<open>GetAll\<close>.  \<open>produced\<close> is the list of
  \<^verbatim>\<open>Screen\<close> values one call hands to its caller (none when it fails or panics), and
  \<open>discover\<close> runs calls one after the other, each on the state the previous one left.
  The other operations of the package reach \<^verbatim>\<open>mutexes\<close> only through \<^verbatim>\<open>Get\<close>.
\<close>

datatype discovery = CallGet string | CallGetAll

fun produced :: "env \<Rightarrow> discovery \<Rightarrow> state \<Rightarrow> Screen list \<times> state" where
  "produced e (CallGet name) st =
     (case Get e name st of (Ok s, st') \<Rightarrow> ([s], st') | (failed, st') \<Rightarrow> ([], st'))"
| "produced e CallGetAll st =
     (case GetAll e st of (Ok res, st') \<Rightarrow> (res, st') | (failed, st') \<Rightarrow> ([], st'))"

fun discover :: "env \<Rightarrow> discovery list \<Rightarrow> state \<Rightarrow> Screen list \<times> state" where
  "discover e [] st = ([], st)"
| "discover e (c # cs) st =
     (let (first, st1) = produced e c st;
          (later, st2) = discover e cs st1
      in (first @ later, st2))"

text \<open>
  \<open>kept st st'\<close>: every entry of \<^verbatim>\<open>mutexes\<close> in \<open>st\<close> is still there, unchanged, in
  \<open>st'\<close>.  \<open>registered st s\<close>: the mutex of \<open>s\<close> is the one \<^verbatim>\<open>mutexes\<close> holds for its
  name.
\<close>

definition kept :: "state \<Rightarrow> state \<Rightarrow> bool" where
  "kept st st' = (\<forall>k m. mutexes st k = Some m \<longrightarrow> mutexes st' k = Some m)"

definition registered :: "state \<Rightarrow> Screen \<Rightarrow> bool" where
  "registered st s = (Mutex s \<noteq> None \<and> mutexes st (Name s) = Mutex s)"

section \<open>What a listing shows\<close>

text \<open>
  The names of the sessions a listing shows, as the specification reads it: the
  whitespace-separated tokens of the form pid, dot, name; the pid is one or more digits
  and the name is everything after the first dot.
\<close>

definition listed_names :: "string \<Rightarrow> string list" where
  "listed_names out =
     concat (map (\<lambda>field.
        let pid = takeWhile (\<lambda>c. c \<noteq> CHR ''.'') field;
            rest = dropWhile (\<lambda>c. c \<noteq> CHR ''.'') field
        in if pid \<noteq> [] \<and> list_all (\<lambda>c. c \<in> set perl_d) pid \<and> rest \<noteq> [] then [tl rest] else [])
       (Fields out))"

section \<open>Names without regular-expression syntax\<close>

text \<open>
  A character is \<open>plain\<close> when it is ASCII and none of the characters with a meaning in a
  pattern.  \<open>name_rx name\<close> is the pattern of \<^verbatim>\<open>Get\<close> for a name read literally.
  \<open>token_at name s\<close>: the text \<open>s\<close> starts with a whitespace character, one or more
  digits, a dot, the name and a whitespace character; \<open>shows_token out name\<close>: some
  position of \<open>out\<close> does.  \<open>listing e name st\<close> is the text that
  \<^verbatim>\<open>screen -ls name\<close> prints in state \<open>st\<close>.
\<close>

definition plain :: "char \<Rightarrow> bool" where
  "plain c = (\<not> digit7 c \<and> c \<notin> set (backslash # ''.+*?()|[]{}^$''))"

definition name_rx :: "string \<Rightarrow> rx" where
  "name_rx name =
     Seq (Atom (OneOf perl_s))
       (Seq (Group 1 (Rep (OneOf perl_d) 1 None True))
          (Seq (Atom (Lit (CHR ''.'')))
             (Seq (Group 2 (mk_seq (map (\<lambda>c. Atom (Lit c)) name))) (Atom (OneOf perl_s)))))"

definition token_at :: "string \<Rightarrow> string \<Rightarrow> bool" where
  "token_at name s =
     (\<exists>w ds w' rest. s = w # ds @ CHR ''.'' # name @ w' # rest
        \<and> w \<in> set perl_s \<and> ds \<noteq> [] \<and> set ds \<subseteq> set perl_d \<and> w' \<in> set perl_s)"

definition shows_token :: "string \<Rightarrow> string \<Rightarrow> bool" where
  "shows_token out name = (\<exists>k. token_at name (drop k out))"

definition listing :: "env \<Rightarrow> string \<Rightarrow> state \<Rightarrow> string" where
  "listing e name st = fst (fst (CombinedOutput e ''screen'' [''-ls'', name] st))"

section \<open>Environments for the examples\<close>

text \<open>
  The text \<^verbatim>\<open>screen -ls\<close> prints for one detached session, without the final line break.
\<close>

definition listing_of :: "string \<Rightarrow> string \<Rightarrow> string" where
  "listing_of pid name =
     ''There is a screen on:'' @ [CHR 0x0A, CHR 0x09] @ pid @ ''.'' @ name @ [CHR 0x09]
       @ ''(Detached)'' @ [CHR 0x0A] @ ''1 Socket in /run/screen/S-root.''"

text \<open>The session \<^verbatim>\<open>banana\<close> has pid 4242 at the first listing and 5000 afterwards.\<close>

definition restarted :: env where
  "restarted =
     \<lparr>command = (\<lambda>tr prog args.
        \<lparr>written = [(Stdout, if tr = [] then listing_of ''4242'' ''banana''
                              else listing_of ''5000'' ''banana'')],
         failure = None\<rparr>),
      stat = (\<lambda>tr path. None),
      regexp_beyond = (\<lambda>expr text. None)\<rparr>"

text \<open>The name \<^verbatim>\<open>\D*)(\d|\<close>.\<close>

definition closing_name :: string where
  "closing_name = backslash # ''D*)('' @ backslash # ''d|''"

text \<open>A context that is cancelled during the first sleep of the poll loop.\<close>

definition cancelled_after_sleep :: Context where
  "cancelled_after_sleep tr = (if Sleep 100 \<in> set tr then Some Canceled else None)"

definition no_sockets :: string where
  "no_sockets = ''No Sockets found in /run/screen/S-root.''"

text \<open>No session is running: the listing says so, and every control command fails.\<close>

definition nothing_running :: env where
  "nothing_running =
     \<lparr>command = (\<lambda>tr prog args.
        if prog = ''screen'' then \<lparr>written = [(Stdout, no_sockets)], failure = Some ''exit status 1''\<rparr>
        else \<lparr>written = [(Stdout, ''No screen session found.'')], failure = Some ''exit status 1''\<rparr>),
      stat = (\<lambda>tr path. None),
      regexp_beyond = (\<lambda>expr text. None)\<rparr>"

text \<open>
  The session \<^verbatim>\<open>banana\<close> is running, and every control command writes to both streams and
  exits with status 1.
\<close>

definition refusing :: env where
  "refusing =
     \<lparr>command = (\<lambda>tr prog args.
        if prog = ''screen'' then \<lparr>written = [(Stdout, listing_of ''4242'' ''banana'')], failure = None\<rparr>
        else \<lparr>written = [(Stdout, ''out ''), (Stderr, ''bad window'')], failure = Some ''exit status 1''\<rparr>),
      stat = (\<lambda>tr path. None),
      regexp_beyond = (\<lambda>expr text. None)\<rparr>"

text \<open>The session \<^verbatim>\<open>banana\<close> is running, and every \<^verbatim>\<open>os.Stat\<close> fails with \<^verbatim>\<open>EACCES\<close> (13).\<close>

definition unreadable :: env where
  "unreadable =
     \<lparr>command = (\<lambda>tr prog args.
        if prog = ''screen'' then \<lparr>written = [(Stdout, listing_of ''4242'' ''banana'')], failure = None\<rparr>
        else \<lparr>written = [], failure = None\<rparr>),
      stat = (\<lambda>tr path. Some 13),
      regexp_beyond = (\<lambda>expr text. None)\<rparr>"

definition banana :: Screen where
  "banana = \<lparr>Name = ''banana'', Mutex = Some 0, Process = Some 4242\<rparr>"

section \<open>Properties\<close>

subsection \<open>The empty name\<close>

text \<open>
  C9.  \<^verbatim>\<open>Get("")\<close> fails with the validation error that says the name cannot be empty, in
  every environment and state; the error is not a not-found error, and the state is
  unchanged: no event is added, so the listing command is not run.
\<close>

theorem Get_empty_name_invalid:
  "Get e [] st = (Err (SyscallError ErrInvalid_text ''screen name cannot be empty''), st)
   \<and> \<not> IsNotExist (error_of (fst (Get e [] st)))
   \<and> trace (snd (Get e [] st)) = trace st"
  by (simp add: Get_def)

theorem Get_empty_name_invalid_witness:
  "outcome (Get (answering ''No Sockets found in /run/screen/S-root.'') [] initial)
     = (Err (SyscallError ''invalid argument'' ''screen name cannot be empty''), [])"
  using Get_empty_name_invalid [of "answering ''No Sockets found in /run/screen/S-root.''" initial]
  by (simp add: ErrInvalid_text_def initial_def)

text \<open>
  C10.  \<^verbatim>\<open>New(ctx, "", shell)\<close> returns the error \<^verbatim>\<open>screen already exists\<close> (wrapping the
  text of \<^verbatim>\<open>os.ErrExist\<close>), not the empty-name validation error of \<^verbatim>\<open>Get\<close>, in every
  environment, context and state, and leaves the state unchanged: neither the listing nor
  the create command is run.
\<close>

theorem New_empty_name_already_exists:
  "New e ctx [] shell st = Some (Err (SyscallError ErrExist_text ''screen already exists''), st)"
  by (simp add: New_def Get_def)

theorem New_empty_name_already_exists_witness:
  "map_option outcome (New (answering ''No Sockets found in /run/screen/S-root.'') never_done [] ''bash'' initial)
     = Some (Err (SyscallError ''file already exists'' ''screen already exists''), [])"
  using New_empty_name_already_exists
    [of "answering ''No Sockets found in /run/screen/S-root.''" never_done "''bash''" initial]
  by (simp add: ErrExist_text_def initial_def)

subsection \<open>The shared lock\<close>

lemma kept_refl: "kept st st"
  by (simp add: kept_def)

lemma kept_trans: "kept a b \<Longrightarrow> kept b c \<Longrightarrow> kept a c"
  by (simp add: kept_def)

lemma registered_kept: "registered st s \<Longrightarrow> kept st st' \<Longrightarrow> registered st' s"
  by (auto simp: registered_def kept_def)

lemma kept_emit: "kept st (emit ev st)"
  by (simp add: kept_def emit_def)

lemma kept_new_Mutex: "new_Mutex st = (a, st') \<Longrightarrow> kept st st'"
  by (auto simp: kept_def new_Mutex_def)

lemma LoadOrStore_kept: "LoadOrStore key val st = (m, st') \<Longrightarrow> kept st st'"
  by (auto simp: LoadOrStore_def kept_def split: option.splits)

lemma LoadOrStore_registered: "LoadOrStore key val st = (m, st') \<Longrightarrow> mutexes st' key = Some m"
  by (auto simp: LoadOrStore_def split: option.splits)

lemma kept_CombinedOutput: "CombinedOutput e prog args st = (res, st') \<Longrightarrow> kept st st'"
  by (auto simp: CombinedOutput_def Let_def kept_emit)

lemma Get_kept: "Get e name st = (r, st') \<Longrightarrow> kept st st'"
  by (auto simp: Get_def Let_def kept_refl split: if_splits prod.splits option.splits result.splits
      dest!: kept_CombinedOutput kept_new_Mutex LoadOrStore_kept intro: kept_trans)

lemma Get_registered: "Get e name st = (Ok s, st') \<Longrightarrow> registered st' s \<and> Name s = name"
  by (auto simp: Get_def Let_def registered_def split: if_splits prod.splits option.splits result.splits
      dest!: LoadOrStore_registered)

lemma GetAll_loop_kept: "GetAll_loop lines res st = (r, st') \<Longrightarrow> kept st st'"
proof (induction lines arbitrary: res st)
  case Nil
  then show ?case by (simp add: kept_refl)
next
  case (Cons line rest)
  then show ?case
    by (auto simp: kept_refl split: list.splits prod.splits
        dest!: kept_new_Mutex LoadOrStore_kept intro: kept_trans)
qed

lemma GetAll_loop_registered:
  "GetAll_loop lines res st = (Ok found, st') \<Longrightarrow> \<forall>s \<in> set res. registered st s
     \<Longrightarrow> \<forall>s \<in> set found. registered st' s"
proof (induction lines arbitrary: res st)
  case Nil
  then show ?case by simp
next
  case (Cons line rest)
  from Cons.prems(1) obtain subject others pid nm more a st1 m st2 where
    f: "Fields line = subject # others" and
    sp: "Split subject (CHR ''.'') = pid # nm # more" and
    nw: "new_Mutex st = (a, st1)" and
    ls: "LoadOrStore nm a st1 = (m, st2)" and
    rec: "GetAll_loop rest (res @ [\<lparr>Name = nm, Mutex = Some m, Process = Atoi pid\<rparr>]) st2 = (Ok found, st')"
    by (auto split: list.splits prod.splits)
  have k: "kept st st2"
    using kept_new_Mutex [OF nw] LoadOrStore_kept [OF ls] by (rule kept_trans)
  have "\<forall>s \<in> set (res @ [\<lparr>Name = nm, Mutex = Some m, Process = Atoi pid\<rparr>]). registered st2 s"
    using Cons.prems(2) k LoadOrStore_registered [OF ls]
    by (auto simp: registered_def kept_def)
  from Cons.IH [OF rec this] show ?case .
qed

lemma produced_kept: "produced e c st = (found, st') \<Longrightarrow> kept st st'"
  by (cases c)
    (auto simp: GetAll_def Let_def split: prod.splits result.splits if_splits
      dest!: Get_kept GetAll_loop_kept kept_CombinedOutput intro: kept_trans)

lemma produced_registered: "produced e c st = (found, st') \<Longrightarrow> \<forall>s \<in> set found. registered st' s"
proof (cases c)
  case (CallGet name)
  assume "produced e c st = (found, st')"
  with CallGet show ?thesis
    by (auto split: prod.splits result.splits dest!: Get_registered)
next
  case CallGetAll
  assume "produced e c st = (found, st')"
  with CallGetAll show ?thesis
    by (auto simp: GetAll_def Let_def split: prod.splits result.splits if_splits
        dest!: GetAll_loop_registered)
qed

lemma discover_registered:
  "discover e cs st = (found, st') \<Longrightarrow> kept st st' \<and> (\<forall>s \<in> set found. registered st' s)"
proof (induction cs arbitrary: st found st')
  case Nil
  then show ?case by (simp add: kept_refl)
next
  case (Cons c cs)
  from Cons.prems obtain first st1 later where
    p: "produced e c st = (first, st1)" and
    d: "discover e cs st1 = (later, st')" and
    f: "found = first @ later"
    by (auto split: prod.splits)
  from Cons.IH [OF d] have k: "kept st1 st'" and l: "\<forall>s \<in> set later. registered st' s"
    by simp_all
  from produced_registered [OF p] k have "\<forall>s \<in> set first. registered st' s"
    by (blast intro: registered_kept)
  with l f produced_kept [OF p] k show ?case
    by (auto intro: kept_trans)
qed

text \<open>
  C1.  In any sequence of discovery calls (\<^verbatim>\<open>Get\<close> for any names, \<^verbatim>\<open>GetAll\<close>), from any
  state and in any environment, two \<^verbatim>\<open>Screen\<close> values handed out with the same name carry
  the same mutex pointer, and it is not nil: \<^verbatim>\<open>LoadOrStore\<close> returns the entry already
  stored for the name and stores a new one only when there is none.
\<close>

theorem discovery_shares_lock:
  assumes "s1 \<in> set (fst (discover e cs st))"
    and "s2 \<in> set (fst (discover e cs st))"
    and "Name s1 = Name s2"
  shows "Mutex s1 = Mutex s2 \<and> Mutex s1 \<noteq> None"
proof -
  obtain found st' where d: "discover e cs st = (found, st')"
    by (cases "discover e cs st")
  from discover_registered [OF d] assms d
  have "registered st' s1" "registered st' s2" by auto
  with assms(3) show ?thesis by (simp add: registered_def)
qed


theorem discovery_shares_lock_witness:
  "\<lparr>Name = ''banana'', Mutex = Some 0, Process = Some 4242\<rparr>
      \<in> set (fst (discover restarted [CallGet ''banana'', CallGetAll] initial))
   \<and> \<lparr>Name = ''banana'', Mutex = Some 0, Process = Some 5000\<rparr>
      \<in> set (fst (discover restarted [CallGet ''banana'', CallGetAll] initial))
   \<and> Mutex \<lparr>Name = ''banana'', Mutex = Some 0, Process = Some 4242\<rparr>
       = Mutex \<lparr>Name = ''banana'', Mutex = Some 0, Process = Some 5000\<rparr>"
proof -
  have run: "fst (discover restarted [CallGet ''banana'', CallGetAll] initial)
      = [\<lparr>Name = ''banana'', Mutex = Some 0, Process = Some 4242\<rparr>,
         \<lparr>Name = ''banana'', Mutex = Some 0, Process = Some 5000\<rparr>]"
    by code_simp
  have a: "\<lparr>Name = ''banana'', Mutex = Some 0, Process = Some 4242\<rparr>
      \<in> set (fst (discover restarted [CallGet ''banana'', CallGetAll] initial))"
    unfolding run by simp
  have b: "\<lparr>Name = ''banana'', Mutex = Some 0, Process = Some 5000\<rparr>
      \<in> set (fst (discover restarted [CallGet ''banana'', CallGetAll] initial))"
    unfolding run by simp
  from discovery_shares_lock [OF a b] a b show ?thesis by simp
qed

subsection \<open>Facts about the liveness check and the control commands\<close>

lemma Get_trace:
  "Get e name st = (Ok s', st1) \<Longrightarrow> trace st1 = trace st @ [Run ''screen'' [''-ls'', name]]"
  by (auto simp: Get_def Let_def CombinedOutput_def emit_def new_Mutex_def LoadOrStore_def
      split: if_splits prod.splits option.splits result.splits)

lemma isOnline_found: "Get e (Name s) st = (Ok s', st1) \<Longrightarrow> isOnline e s st = (Some True, st1)"
  by (simp add: isOnline_def)

lemma isOnline_not_found: "Get e (Name s) st = (Err x, st1) \<Longrightarrow> isOnline e s st = (Some False, st1)"
  by (simp add: isOnline_def)

lemma New_when_discovered:
  "Get e name st = (Ok s, st1) \<Longrightarrow>
   New e ctx name shell st = Some (Err (SyscallError ErrExist_text ''screen already exists''), st1)"
  by (simp add: New_def)

lemma builtinTemplate_not_found:
  "Mutex s = Some m \<Longrightarrow> Get e (Name s) (emit (Lock m) st) = (Err x, st1) \<Longrightarrow>
   builtinTemplate e s cmd st = (Err screen_not_found, emit (Unlock m) st1)"
  by (simp add: builtinTemplate_def locked_def isOnline_not_found)

lemma control_ok:
  "failure (command e (trace st) screenExec args) = None \<Longrightarrow>
   control e args st = (Ok (), emit (Run screenExec args) st)"
  by (simp add: control_def CombinedOutput_def Let_def)

lemma builtinTemplate_command_failed:
  "Mutex s = Some m \<Longrightarrow> Get e (Name s) (emit (Lock m) st) = (Ok s', st1) \<Longrightarrow>
   failure (command e (trace st1) screenExec [''-S'', Name s, ''-X'', cmd]) = Some err \<Longrightarrow>
   fst (builtinTemplate e s cmd st)
     = Err (ErrorString (concat (map snd
         (written (command e (trace st1) screenExec [''-S'', Name s, ''-X'', cmd])))))"
  by (simp add: builtinTemplate_def locked_def isOnline_found control_def CombinedOutput_def Let_def)

lemma Exec_not_found:
  "Mutex s = Some m \<Longrightarrow> Get e (Name s) (emit (Lock m) st) = (Err x, st1) \<Longrightarrow>
   Exec e s fdpat cmd args st = (Err screen_not_found, emit (Unlock m) st1)"
  by (simp add: Exec_def locked_def isOnline_not_found)

lemma Chdir_events:
  "Mutex s = Some m \<Longrightarrow> stat e (trace st @ [Lock m]) path = None \<Longrightarrow>
   trace (snd (Chdir e s path st))
     = trace st @ [Lock m, Stat path, Run screenExec [''-S'', Name s, ''-X'', ''chdir'', path], Unlock m]"
  by (simp add: Chdir_def locked_def os_Stat_def control_def CombinedOutput_def Let_def emit_def)

subsection \<open>Discovery by name\<close>

text \<open>
  For a name of plain characters the pattern is the name read literally: \<^verbatim>\<open>Get\<close> finds
  the session exactly when the listing shows a token for the name.
\<close>

lemma lex_plain_char:
  "plain c \<Longrightarrow> lex (c # rest) = TAtom (Lit c) # lex rest"
  by (auto simp: plain_def single_def backslash_def)

lemma lex_plain: "list_all plain xs \<Longrightarrow> lex (xs @ rest) = map (\<lambda>c. TAtom (Lit c)) xs @ lex rest"
  by (induction xs) (simp_all add: lex_plain_char del: lex.simps)

lemma parse_literals:
  "parse (map (\<lambda>c. TAtom (Lit c)) xs @ ts) False ncap stack alts seq
     = parse ts False ncap stack alts (rev (map (\<lambda>c. Atom (Lit c)) xs) @ seq)"
  by (induction xs arbitrary: seq) simp_all

lemma lex_backslash: "lex (backslash # e # t) = escape e # lex t"
  by simp

lemma lex_lparen: "q \<noteq> CHR ''?'' \<Longrightarrow> lex (CHR ''('' # q # t) = TLParen # lex (q # t)"
  by (simp add: backslash_def)

lemma lex_plus: "q \<noteq> CHR ''?'' \<Longrightarrow> lex (CHR ''+'' # q # t) = TRepeat 1 None True # lex (q # t)"
  by (simp add: backslash_def repeat_op_def)

lemma lex_rparen: "lex (CHR '')'' # t) = TRParen # lex t"
  by (simp add: backslash_def single_def)

lemma lex_pattern:
  assumes "list_all plain (n # ns)"
  shows "lex (Sprintf_pattern (n # ns)) =
     [TAtom (OneOf perl_s), TLParen, TAtom (OneOf perl_d), TRepeat 1 None True, TRParen,
      TAtom (Lit (CHR ''.'')), TLParen] @ map (\<lambda>c. TAtom (Lit c)) (n # ns)
      @ [TRParen, TAtom (OneOf perl_s)]"
proof -
  from assms have q: "n \<noteq> CHR ''?''"
    by (auto simp: plain_def)
  have bq: "backslash \<noteq> CHR ''?''"
    by (simp add: backslash_def)
  have esc: "escape (CHR ''s'') = TAtom (OneOf perl_s)" "escape (CHR ''d'') = TAtom (OneOf perl_d)"
    "escape (CHR ''.'') = TAtom (Lit (CHR ''.''))"
    by (simp_all add: escape_def alnum_def)
  have tail: "lex [CHR '')'', backslash, CHR ''s''] = [TRParen, TAtom (OneOf perl_s)]"
    by (simp add: lex_rparen lex_backslash esc del: lex.simps(2))
  have body: "lex (n # ns @ [CHR '')'', backslash, CHR ''s''])
      = map (\<lambda>c. TAtom (Lit c)) (n # ns) @ [TRParen, TAtom (OneOf perl_s)]"
    using lex_plain [OF assms, of "[CHR '')'', backslash, CHR ''s'']"] tail
    by (simp del: lex.simps(2))
  show ?thesis
    by (simp add: Sprintf_pattern_def lex_backslash lex_lparen lex_plus lex_rparen esc bq q body
        del: lex.simps(2))
qed

lemma parse_group_literals:
  "parse (map (\<lambda>c. TAtom (Lit c)) xs @ TRParen # ts) False ncap ((n, alts', seq') # stack) [] []
     = parse ts False ncap stack alts' (Group n (mk_seq (map (\<lambda>c. Atom (Lit c)) xs)) # seq')"
  by (simp add: parse_literals finish_def)

lemma compile_plain_name:
  assumes "list_all plain (n # ns)" and "length (n # ns) \<le> 240"
  shows "regexp_Compile (Sprintf_pattern (n # ns)) = Compiled (name_rx (n # ns)) 2"
proof -
  have ascii: "\<not> list_ex digit7 (Sprintf_pattern (n # ns))"
    using assms(1) by (auto simp: Sprintf_pattern_def backslash_def plain_def list_ex_iff list_all_iff)
  have len: "\<not> 256 < length (Sprintf_pattern (n # ns))"
    using assms(2) by (simp add: Sprintf_pattern_def)
  have "parse (lex (Sprintf_pattern (n # ns))) False 0 [] [] [] = Compiled (name_rx (n # ns)) 2"
    unfolding lex_pattern [OF assms(1)]
    using parse_group_literals [of "n # ns" "[TAtom (OneOf perl_s)]" "Suc (Suc 0)" "Suc (Suc 0)" "[]"
        "[Atom (Lit (CHR ''.'')), Group (Suc 0) (Rep (OneOf perl_d) (Suc 0) None True), Atom (OneOf perl_s)]"
        "[]"]
    by (simp add: finish_def name_rx_def eval_nat_numeral)
  with ascii len show ?thesis
    by (simp add: regexp_Compile_def)
qed


lemma in_run_Atom:
  "(b', s', c') \<in> set (run (Atom a) (b, s, c)) \<longleftrightarrow> (\<exists>x. s = x # s' \<and> accepts a x \<and> \<not> b' \<and> c' = c)"
  by (cases s) auto

lemma in_run_Seq:
  "p' \<in> set (run (Seq r1 r2) p) \<longleftrightarrow>
     (\<exists>bq sq cq. (bq, sq, cq) \<in> set (run r1 p) \<and> p' \<in> set (run r2 (bq, sq, cq)))"
  by auto

lemma in_run_Group:
  "(b', s', c') \<in> set (run (Group n r) (b, s, c)) \<longleftrightarrow>
     (\<exists>c''. (b', s', c'') \<in> set (run r (b, s, c)) \<and> c' = (n, take (length s - length s') s) # c'')"
  by force

lemma set_run_Rep:
  "set (run (Rep a lo None g) (b, s, c))
     = (\<lambda>k. (b \<and> k = 0, drop k s, c)) ` {lo ..< Suc (length (takeWhile (accepts a) s))}"
  by (simp add: Let_def del: upt_Suc)

lemma in_run_Rep:
  "(b', s', c') \<in> set (run (Rep a lo None g) (b, s, c)) \<longleftrightarrow>
     (\<exists>k. lo \<le> k \<and> k \<le> length (takeWhile (accepts a) s) \<and> s' = drop k s \<and> c' = c
          \<and> b' = (b \<and> k = 0))"
proof
  assume "(b', s', c') \<in> set (run (Rep a lo None g) (b, s, c))"
  then have "(b', s', c')
      \<in> (\<lambda>k. (b \<and> k = 0, drop k s, c)) ` {lo ..< Suc (length (takeWhile (accepts a) s))}"
    by (simp only: set_run_Rep)
  then obtain k where k: "k \<in> {lo ..< Suc (length (takeWhile (accepts a) s))}"
    and e: "(b', s', c') = (b \<and> k = 0, drop k s, c)"
    by (rule imageE)
  from k have "lo \<le> k" "k \<le> length (takeWhile (accepts a) s)"
    by simp_all
  with e show "\<exists>k. lo \<le> k \<and> k \<le> length (takeWhile (accepts a) s) \<and> s' = drop k s \<and> c' = c
          \<and> b' = (b \<and> k = 0)"
    by (intro exI [of _ k]) simp
next
  assume "\<exists>k. lo \<le> k \<and> k \<le> length (takeWhile (accepts a) s) \<and> s' = drop k s \<and> c' = c
          \<and> b' = (b \<and> k = 0)"
  then obtain k where k: "lo \<le> k" "k \<le> length (takeWhile (accepts a) s)"
    and e: "(b', s', c') = (b \<and> k = 0, drop k s, c)"
    by auto
  from k have "k \<in> {lo ..< Suc (length (takeWhile (accepts a) s))}"
    by simp
  then have "(b \<and> k = 0, drop k s, c)
      \<in> (\<lambda>k. (b \<and> k = 0, drop k s, c)) ` {lo ..< Suc (length (takeWhile (accepts a) s))}"
    by (rule imageI)
  with e show "(b', s', c') \<in> set (run (Rep a lo None g) (b, s, c))"
    by (simp only: set_run_Rep)
qed

lemma in_run_literals:
  "xs \<noteq> [] \<Longrightarrow>
   (b', s', c') \<in> set (run (mk_seq (map (\<lambda>c. Atom (Lit c)) xs)) (b, s, c)) \<longleftrightarrow>
     (s = xs @ s' \<and> \<not> b' \<and> c' = c)"
proof (induction xs arbitrary: b s c rule: list_nonempty_induct)
  case (single x)
  show ?case by (auto simp: in_run_Atom)
next
  case (cons x xs)
  from cons.hyps obtain y ys where xs: "xs = y # ys"
    by (cases xs) auto
  have "mk_seq (map (\<lambda>c. Atom (Lit c)) (x # xs))
      = Seq (Atom (Lit x)) (mk_seq (map (\<lambda>c. Atom (Lit c)) xs))"
    by (simp add: xs)
  then show ?case
    by (simp only: in_run_Seq in_run_Atom cons.IH) auto
qed


lemma take_length_drop: "k \<le> length s \<Longrightarrow> take (length s - length (drop k s)) s = take k s"
  by simp

lemma takeWhile_prefix_all:
  "k \<le> length (takeWhile P s) \<Longrightarrow> set (take k s) \<subseteq> {x. P x}"
proof -
  assume k: "k \<le> length (takeWhile P s)"
  have "take k s = take k (takeWhile P s @ dropWhile P s)"
    by simp
  also have "\<dots> = take k (takeWhile P s)"
    using k by (simp del: takeWhile_dropWhile_id)
  finally have "set (take k s) \<subseteq> set (takeWhile P s)"
    by (simp add: set_take_subset)
  then show ?thesis
    by (auto dest: set_takeWhileD)
qed

lemma run_name_rx_sound:
  assumes ne: "name \<noteq> []"
    and mem: "(b', s', c') \<in> set (run (name_rx name) (b, s, c))"
  shows "\<exists>w k s1 w'. s = w # s1 \<and> w \<in> set perl_s \<and> 1 \<le> k
           \<and> k \<le> length (takeWhile (accepts (OneOf perl_d)) s1)
           \<and> drop k s1 = CHR ''.'' # name @ w' # s' \<and> w' \<in> set perl_s
           \<and> c' = (2, name) # (1, take k s1) # c"
proof -
  from mem obtain b1 s1 c1 b2 s2 c2 b3 s3 c3 b4 s4 c4 where
    a1: "(b1, s1, c1) \<in> set (run (Atom (OneOf perl_s)) (b, s, c))" and
    a2: "(b2, s2, c2) \<in> set (run (Group 1 (Rep (OneOf perl_d) 1 None True)) (b1, s1, c1))" and
    a3: "(b3, s3, c3) \<in> set (run (Atom (Lit (CHR ''.''))) (b2, s2, c2))" and
    a4: "(b4, s4, c4) \<in> set (run (Group 2 (mk_seq (map (\<lambda>c. Atom (Lit c)) name))) (b3, s3, c3))" and
    a5: "(b', s', c') \<in> set (run (Atom (OneOf perl_s)) (b4, s4, c4))"
    unfolding name_rx_def in_run_Seq by blast
  from a1 obtain w where w: "s = w # s1" "w \<in> set perl_s" "c1 = c"
    unfolding in_run_Atom by auto
  from a2 have "\<exists>k. 1 \<le> k \<and> k \<le> length (takeWhile (accepts (OneOf perl_d)) s1)
      \<and> s2 = drop k s1 \<and> c2 = (1, take (length s1 - length s2) s1) # c1"
    unfolding in_run_Group in_run_Rep by blast
  then obtain k where k: "1 \<le> k" "k \<le> length (takeWhile (accepts (OneOf perl_d)) s1)"
    "s2 = drop k s1" "c2 = (1, take (length s1 - length s2) s1) # c1"
    by blast
  have kl: "k \<le> length s1"
    using k(2) length_takeWhile_le [of "accepts (OneOf perl_d)" s1] by linarith
  from a3 have d: "s2 = CHR ''.'' # s3" "c3 = c2"
    unfolding in_run_Atom by auto
  from a4 have n: "s3 = name @ s4" "c4 = (2, take (length s3 - length s4) s3) # c3"
    unfolding in_run_Group in_run_literals [OF ne] by auto
  from a5 obtain w' where w': "s4 = w' # s'" "w' \<in> set perl_s" "c' = c4"
    unfolding in_run_Atom by auto
  have "c' = (2, name) # (1, take k s1) # c"
    using w(3) k(3,4) kl d(2) n w'(3) by simp
  with w k d n w' show ?thesis
    by (intro exI [of _ w] exI [of _ k] exI [of _ s1] exI [of _ w']) simp
qed


lemma takeWhile_digits:
  "set ds \<subseteq> set perl_d \<Longrightarrow> takeWhile (accepts (OneOf perl_d)) (ds @ CHR ''.'' # t) = ds"
proof -
  assume "set ds \<subseteq> set perl_d"
  then have "takeWhile (accepts (OneOf perl_d)) (ds @ CHR ''.'' # t)
      = ds @ takeWhile (accepts (OneOf perl_d)) (CHR ''.'' # t)"
    by (intro takeWhile_append2) auto
  then show ?thesis
    by (simp add: perl_d_def)
qed

lemma run_name_rx_complete:
  assumes ne: "name \<noteq> []" and tok: "token_at name s"
  shows "run (name_rx name) (b, s, c) \<noteq> []"
proof -
  from tok obtain w ds w' rest where
    s: "s = w # ds @ CHR ''.'' # name @ w' # rest" and
    w: "w \<in> set perl_s" and ds: "ds \<noteq> []" "set ds \<subseteq> set perl_d" and w': "w' \<in> set perl_s"
    unfolding token_at_def by blast
  let ?s1 = "ds @ CHR ''.'' # name @ w' # rest"
  let ?s2 = "CHR ''.'' # name @ w' # rest"
  let ?c2 = "(1, take (length ?s1 - length ?s2) ?s1) # c"
  let ?c4 = "(2, take (length (name @ w' # rest) - length (w' # rest)) (name @ w' # rest)) # ?c2"
  have a1: "(False, ?s1, c) \<in> set (run (Atom (OneOf perl_s)) (b, s, c))"
    unfolding in_run_Atom using s w by simp
  have "(False, drop (length ds) ?s1, c) \<in> set (run (Rep (OneOf perl_d) 1 None True) (False, ?s1, c))"
    unfolding in_run_Rep using ds takeWhile_digits [OF ds(2)]
    by (intro exI [of _ "length ds"]) (cases ds, simp_all)
  then have a2: "(False, ?s2, ?c2) \<in> set (run (Group 1 (Rep (OneOf perl_d) 1 None True)) (False, ?s1, c))"
    unfolding in_run_Group by simp
  have a3: "(False, name @ w' # rest, ?c2) \<in> set (run (Atom (Lit (CHR ''.''))) (False, ?s2, ?c2))"
    unfolding in_run_Atom by simp
  have a4: "(False, w' # rest, ?c4)
      \<in> set (run (Group 2 (mk_seq (map (\<lambda>c. Atom (Lit c)) name))) (False, name @ w' # rest, ?c2))"
    unfolding in_run_Group in_run_literals [OF ne] by simp
  have a5: "(False, rest, ?c4) \<in> set (run (Atom (OneOf perl_s)) (False, w' # rest, ?c4))"
    unfolding in_run_Atom using w' by simp
  have "(False, rest, ?c4) \<in> set (run (name_rx name) (b, s, c))"
    unfolding name_rx_def in_run_Seq using a1 a2 a3 a4 a5 by blast
  then show ?thesis
    by auto
qed


lemma run_name_rx_token:
  assumes ne: "name \<noteq> []"
    and mem: "(b', s', c') \<in> set (run (name_rx name) (b, s, []))"
  shows "token_at name s \<and> submatch c' 2 = name \<and> length s' < length s"
proof -
  from run_name_rx_sound [OF ne mem] obtain w k s1 w' where
    s: "s = w # s1" and w: "w \<in> set perl_s" and k1: "1 \<le> k" and
    k2: "k \<le> length (takeWhile (accepts (OneOf perl_d)) s1)" and
    d: "drop k s1 = CHR ''.'' # name @ w' # s'" and w': "w' \<in> set perl_s" and
    c: "c' = (2, name) # (1, take k s1) # []"
    by blast
  have kl: "k \<le> length s1"
    using k2 length_takeWhile_le [of "accepts (OneOf perl_d)" s1] by linarith
  have split: "s1 = take k s1 @ CHR ''.'' # name @ w' # s'"
    using d append_take_drop_id [of k s1] by simp
  have digs: "set (take k s1) \<subseteq> set perl_d"
    using takeWhile_prefix_all [OF k2] by auto
  have nonempty: "take k s1 \<noteq> []"
    using k1 kl by (cases s1) auto
  have "token_at name s"
    unfolding token_at_def using s w w' split digs nonempty
    by (intro exI [of _ w] exI [of _ "take k s1"] exI [of _ w'] exI [of _ s']) simp
  moreover have "submatch c' 2 = name"
    by (simp add: c submatch_def)
  moreover have "length s' < length s"
    using s arg_cong [OF split, of length] by simp
  ultimately show ?thesis by simp
qed

lemma search_none: "(\<And>b' k. run r (b', drop k s, []) = []) \<Longrightarrow> search r b s = None"
proof (induction s arbitrary: b)
  case Nil
  from Nil [of b 0] show ?case by simp
next
  case (Cons x xs)
  have here: "run r (b, x # xs, []) = []"
    using Cons.prems [of b 0] by simp
  have "search r False xs = None"
  proof (rule Cons.IH)
    fix b' k
    show "run r (b', drop k xs, []) = []"
      using Cons.prems [of b' "Suc k"] by simp
  qed
  with here show ?case by simp
qed

lemma search_Some_run:
  "search r b s = Some (k, l, caps) \<Longrightarrow>
   \<exists>b0 b' s' ps. run r (b0, drop k s, []) = (b', s', caps) # ps \<and> l = length (drop k s) - length s'"
proof (induction s arbitrary: b k)
  case Nil
  then show ?case
    by (auto split: list.splits)
next
  case (Cons x xs)
  show ?case
  proof (cases "run r (b, x # xs, [])")
    case Nil
    with Cons.prems obtain k' where k': "search r False xs = Some (k', l, caps)" "k = Suc k'"
      by (auto split: option.splits)
    from Cons.IH [OF k'(1)] k'(2) show ?thesis by simp
  next
    case (Cons p ps)
    obtain b' s' c' where p: "p = (b', s', c')"
      by (cases p)
    with Cons Cons.prems have "k = 0" "l = length (x # xs) - length s'" "caps = c'"
      by simp_all
    with Cons p show ?thesis
      by (intro exI [of _ b] exI [of _ b'] exI [of _ s'] exI [of _ ps]) simp
  qed
qed

lemma search_some:
  "(\<And>b'. run r (b', drop k s, []) \<noteq> []) \<Longrightarrow> k \<le> length s \<Longrightarrow> search r b s \<noteq> None"
proof (induction s arbitrary: b k)
  case Nil
  then have "run r (b, [], []) \<noteq> []" by simp
  then show ?case
    by (auto split: list.splits)
next
  case (Cons x xs)
  show ?case
  proof (cases "run r (b, x # xs, [])")
    case Nil
    with Cons.prems(1) [of b] have "k \<noteq> 0"
      by (cases k) auto
    then obtain k' where k': "k = Suc k'"
      by (cases k) auto
    have "search r False xs \<noteq> None"
    proof (rule Cons.IH [of k'])
      fix b'
      show "run r (b', drop k' xs, []) \<noteq> []"
        using Cons.prems(1) [of b'] k' by simp
      show "k' \<le> length xs"
        using Cons.prems(2) k' by simp
    qed
    with Nil show ?thesis
      by (auto split: option.splits)
  next
    case (Cons p ps)
    then show ?thesis
      by (auto split: prod.splits)
  qed
qed


lemma allMatches_none: "search r b rest = None \<Longrightarrow> allMatches r ncap b rest prev = []"
  by (subst allMatches.simps) simp

lemma allMatches_nonempty:
  "search r b rest = Some (k, l, caps) \<Longrightarrow> l \<noteq> 0 \<Longrightarrow> allMatches r ncap b rest prev \<noteq> []"
  by (subst allMatches.simps) (simp add: Let_def)

lemma allMatches_sound:
  "(\<And>b s b' s' c'. (b', s', c') \<in> set (run r (b, s, [])) \<Longrightarrow> submatch c' 2 = name) \<Longrightarrow>
   ncap = 2 \<Longrightarrow> m \<in> set (allMatches r ncap b rest prev) \<Longrightarrow> length m = 3 \<and> m ! 2 = name"
proof (induction r ncap b rest prev rule: allMatches.induct)
  case (1 r ncap b rest prev_here)
  show ?case
  proof (cases "search r b rest")
    case None
    with "1.prems"(3) show ?thesis
      by (simp add: allMatches_none)
  next
    case (Some found)
    obtain k l caps where f: "found = (k, l, caps)"
      by (cases found)
    let ?found = "take l (drop k rest) # map (submatch caps) [1 ..< Suc ncap]"
    from search_Some_run [of r b rest k l caps] Some f obtain b0 b' s' ps where
      "run r (b0, drop k rest, []) = (b', s', caps) # ps"
      by auto
    then have "(b', s', caps) \<in> set (run r (b0, drop k rest, []))"
      by simp
    from "1.prems"(1) [OF this] have cap: "submatch caps 2 = name" .
    have u: "[1 ..< Suc ncap] = [1, 2]"
      unfolding "1.prems"(2) by code_simp
    have found_ok: "length ?found = 3 \<and> ?found ! 2 = name"
      unfolding u using cap by simp
    show ?thesis
    proof (cases "k + l = 0")
      case True
      show ?thesis
      proof (cases rest)
        case Nil
        with "1.prems"(3) Some f True found_ok show ?thesis
          by (subst (asm) allMatches.simps) (auto simp: Let_def split: if_splits)
      next
        case (Cons x rest')
        from "1.prems"(3) Some f True Cons
        have "m = ?found \<or> m \<in> set (allMatches r ncap False rest' False)"
          by (subst (asm) allMatches.simps) (auto simp: Let_def split: if_splits)
        then show ?thesis
        proof
          assume "m = ?found"
          with found_ok show ?thesis by simp
        next
          assume rec: "m \<in> set (allMatches r ncap False rest' False)"
          show ?thesis
            using "1.IH"(1) [OF Some f [symmetric] refl refl True Cons "1.prems"(1) "1.prems"(2) rec]
            by simp
        qed
      qed
    next
      case False
      from "1.prems"(3) Some f False
      have "m = ?found \<or> m \<in> set (allMatches r ncap False (drop (k + l) rest) True)"
        by (subst (asm) allMatches.simps) (auto simp: Let_def split: if_splits)
      then show ?thesis
      proof
        assume "m = ?found"
        with found_ok show ?thesis by simp
      next
        assume rec: "m \<in> set (allMatches r ncap False (drop (k + l) rest) True)"
        show ?thesis
          using "1.IH"(2) [OF Some f [symmetric] refl refl False "1.prems"(1) "1.prems"(2) rec]
          by simp
      qed
    qed
  qed
qed


lemma find_all_plain:
  assumes "name \<noteq> []" and "list_all plain name" and "length name \<le> 240"
  shows "find_all e (Sprintf_pattern name) out = Some (allMatches (name_rx name) 2 True out False)"
proof -
  from assms(1) obtain n ns where n: "name = n # ns"
    by (cases name) auto
  from compile_plain_name [of n ns] assms(2,3) n
  have "regexp_Compile (Sprintf_pattern name) = Compiled (name_rx name) 2"
    by simp
  then show ?thesis
    by (simp add: find_all_def FindAllStringSubmatch_def)
qed

lemma check_all_lines_uniform:
  "(\<And>m. m \<in> set ms \<Longrightarrow> length m = 3 \<and> m ! 2 = name) \<Longrightarrow>
   check_all_lines name ms = (case ms of [] \<Rightarrow> Ok None | m # rest \<Rightarrow> Ok (Some m))"
  by (cases ms) auto

lemma Get_unfold:
  assumes "name \<noteq> []"
  shows "fst (Get e name st) =
     (if Contains (listing e name st) ''No Sockets found in'' then Err ErrNotExist
      else (case find_all e (Sprintf_pattern name) (listing e name st) of
              None \<Rightarrow> Panic
            | Some matches \<Rightarrow>
                (case check_all_lines name matches of
                   Panic \<Rightarrow> Panic
                 | Err x \<Rightarrow> Err x
                 | Ok None \<Rightarrow> Err ErrNotExist
                 | Ok (Some match) \<Rightarrow>
                     Ok \<lparr>Name = name,
                         Mutex = Some (fst (LoadOrStore name
                                   (fst (new_Mutex (emit (Run ''screen'' [''-ls'', name]) st)))
                                   (snd (new_Mutex (emit (Run ''screen'' [''-ls'', name]) st))))),
                         Process = Atoi (match ! 1)\<rparr>)))"
  using assms
  by (simp add: Get_def listing_def CombinedOutput_def Let_def
      split: option.splits result.splits prod.splits)

lemma Get_plain_name_absent:
  assumes "name \<noteq> []" and "list_all plain name" and "length name \<le> 240"
    and "\<not> shows_token (listing e name st) name"
  shows "fst (Get e name st) = Err ErrNotExist"
proof -
  have "search (name_rx name) True (listing e name st) = None"
  proof (rule search_none)
    fix b' k
    show "run (name_rx name) (b', drop k (listing e name st), []) = []"
    proof (rule ccontr)
      assume "run (name_rx name) (b', drop k (listing e name st), []) \<noteq> []"
      then obtain p where "p \<in> set (run (name_rx name) (b', drop k (listing e name st), []))"
        by (cases "run (name_rx name) (b', drop k (listing e name st), [])") auto
      moreover obtain b'' s'' c'' where "p = (b'', s'', c'')"
        by (cases p)
      ultimately have
        "(b'', s'', c'') \<in> set (run (name_rx name) (b', drop k (listing e name st), []))"
        by simp
      from run_name_rx_token [OF assms(1) this] have "token_at name (drop k (listing e name st))"
        by simp
      with assms(4) show False
        by (auto simp: shows_token_def)
    qed
  qed
  then have "allMatches (name_rx name) 2 True (listing e name st) False = []"
    by (rule allMatches_none)
  then show ?thesis
    by (simp add: Get_unfold [OF assms(1)] find_all_plain [OF assms(1,2,3)])
qed

lemma Get_plain_name_present:
  assumes "name \<noteq> []" and "list_all plain name" and "length name \<le> 240"
    and "\<not> Contains (listing e name st) ''No Sockets found in''"
    and "shows_token (listing e name st) name"
  shows "\<exists>m pid. fst (Get e name st) = Ok \<lparr>Name = name, Mutex = Some m, Process = pid\<rparr>"
proof -
  let ?out = "listing e name st"
  let ?ms = "allMatches (name_rx name) 2 True ?out False"
  from assms(5) obtain k where tok: "token_at name (drop k ?out)"
    by (auto simp: shows_token_def)
  have k: "k \<le> length ?out"
  proof (rule ccontr)
    assume "\<not> k \<le> length ?out"
    then have "drop k ?out = []" by simp
    with tok show False by (simp add: token_at_def)
  qed
  have "search (name_rx name) True ?out \<noteq> None"
    using run_name_rx_complete [OF assms(1) tok] k by (intro search_some [of _ k]) auto
  then obtain k' l caps where sr: "search (name_rx name) True ?out = Some (k', l, caps)"
    by auto
  from search_Some_run [OF sr] obtain b0 b' s' ps where
    r: "run (name_rx name) (b0, drop k' ?out, []) = (b', s', caps) # ps" and
    l: "l = length (drop k' ?out) - length s'"
    by blast
  from r have "(b', s', caps) \<in> set (run (name_rx name) (b0, drop k' ?out, []))"
    by simp
  from run_name_rx_token [OF assms(1) this] l have "l \<noteq> 0"
    by (simp, arith)
  from allMatches_nonempty [OF sr this] obtain m rest where ms: "?ms = m # rest"
    by (cases ?ms) auto
  have sound: "\<And>m. m \<in> set ?ms \<Longrightarrow> length m = 3 \<and> m ! 2 = name"
  proof -
    fix m
    assume m: "m \<in> set ?ms"
    show "length m = 3 \<and> m ! 2 = name"
    proof (rule allMatches_sound [OF _ refl m])
      fix b s b' s' c'
      assume "(b', s', c') \<in> set (run (name_rx name) (b, s, []))"
      from run_name_rx_token [OF assms(1) this] show "submatch c' 2 = name" by simp
    qed
  qed
  have "check_all_lines name ?ms = Ok (Some m)"
    using check_all_lines_uniform [of ?ms name] sound ms by simp
  then show ?thesis
    using assms(4) by (simp add: Get_unfold [OF assms(1)] find_all_plain [OF assms(1,2,3)])
qed

lemma New_plain_name_existing:
  assumes "name \<noteq> []" and "list_all plain name" and "length name \<le> 240"
    and "\<not> Contains (listing e name st) ''No Sockets found in''"
    and "shows_token (listing e name st) name"
  shows "\<exists>st1. New e ctx name shell st
            = Some (Err (SyscallError ErrExist_text ''screen already exists''), st1)
          \<and> trace st1 = trace st @ [Run ''screen'' [''-ls'', name]]"
proof -
  from Get_plain_name_present [OF assms] obtain m pid where
    "fst (Get e name st) = Ok \<lparr>Name = name, Mutex = Some m, Process = pid\<rparr>"
    by blast
  then have g: "Get e name st = (Ok \<lparr>Name = name, Mutex = Some m, Process = pid\<rparr>, snd (Get e name st))"
    by (simp add: prod_eq_iff)
  from New_when_discovered [OF g] Get_trace [OF g] show ?thesis
    by blast
qed

text \<open>
  C2.  The claim fails on the code.  The listing shows one session, named
  \<^verbatim>\<open>\D*)(\d|7\<close>, and none named \<^verbatim>\<open>\D*)(\d|\<close>; yet \<^verbatim>\<open>Get\<close> of the shorter name returns a
  \<^verbatim>\<open>Screen\<close> for it.  The name is put into the pattern unescaped, the pattern becomes
  \<^verbatim>\<open>\s(\d+)\.(\D*)(\d|)\s\<close>, its second group matches the text of the name and the
  group after it takes the extra character.
\<close>

theorem Get_partial_name_false_positive:
  "listed_names (listing_of ''4242'' (closing_name @ ''7'')) = [closing_name @ ''7'']
   \<and> outcome (Get (answering (listing_of ''4242'' (closing_name @ ''7''))) closing_name initial)
      = (Ok \<lparr>Name = closing_name, Mutex = Some 0, Process = Some 4242\<rparr>,
         [Run ''screen'' [''-ls'', closing_name]])"
  by code_simp

text \<open>
  A name that is not a regular expression at all: the pattern for \<^verbatim>\<open>c++\<close> does not
  compile, the error of \<^verbatim>\<open>regexp.Compile\<close> is dropped, and the call panics.
\<close>

lemma Get_uncompilable_name_panics:
  "outcome (Get (answering (listing_of ''4242'' ''c++x'')) ''c++'' initial)
      = (Panic, [Run ''screen'' [''-ls'', ''c++'']])"
  by code_simp

subsection \<open>Creating a session\<close>

text \<open>
  C4.  The claim fails on the code, by the unescaped pattern again.  The session
  \<^verbatim>\<open>a+b\<close> is live and listed; the pattern \<^verbatim>\<open>\s(\d+)\.(a+b)\s\<close> does not match its line, so
  the precheck of \<^verbatim>\<open>New\<close> reports that it does not exist, and \<^verbatim>\<open>New\<close> runs the create
  command and then polls until the context ends.
\<close>

theorem New_existing_name_creates_again:
  "listed_names (listing_of ''77'' ''a+b'') = [''a+b'']
   \<and> map_option outcome (New (answering (listing_of ''77'' ''a+b'')) cancelled_after_sleep ''a+b'' ''bash'' initial)
      = Some (Err (ContextError Canceled),
          [Run ''screen'' [''-ls'', ''a+b''], Run ''/usr/bin/screen'' [''-dmS'', ''a+b'', ''bash''],
           Sleep 100, Run ''screen'' [''-ls'', ''a+b'']])"
  by code_simp





subsection \<open>Operations on a session\<close>

text \<open>
  C3.  The claim fails on the code for \<^verbatim>\<open>Chdir\<close>.  No session is running, and the
  listing says so; \<^verbatim>\<open>Chdir\<close> on a handle for the name \<^verbatim>\<open>gone\<close> does not list, runs the
  control command \<^verbatim>\<open>chdir\<close> and returns the output of the failed command.  \<^verbatim>\<open>Quit\<close> on
  the same handle lists and returns the error \<^verbatim>\<open>screen not found\<close> without a control
  command.
\<close>

theorem Chdir_skips_liveness_check:
  "outcome (Get nothing_running ''gone'' initial) = (Err ErrNotExist, [Run ''screen'' [''-ls'', ''gone'']])
   \<and> outcome (Chdir nothing_running \<lparr>Name = ''gone'', Mutex = Some 0, Process = Some 4242\<rparr> ''/tmp'' initial)
      = (Err (ErrorString ''No screen session found.''),
         [Lock 0, Stat ''/tmp'', Run ''/usr/bin/screen'' [''-S'', ''gone'', ''-X'', ''chdir'', ''/tmp''], Unlock 0])
   \<and> outcome (Quit nothing_running \<lparr>Name = ''gone'', Mutex = Some 0, Process = Some 4242\<rparr> initial)
      = (Err (SyscallError ''file does not exist'' ''screen not found''),
         [Lock 0, Run ''screen'' [''-ls'', ''gone''], Unlock 0])"
  by code_simp

text \<open>
  C8.  The claim fails on the code for \<^verbatim>\<open>Stuff\<close>.  The control command writes \<^verbatim>\<open>out \<close> to
  standard output and \<^verbatim>\<open>bad window\<close> to standard error and exits with status 1, so its
  combined output is \<^verbatim>\<open>out bad window\<close>.  The error of \<^verbatim>\<open>Stuff\<close> carries the standard output
  followed by \<^verbatim>\<open>exit status 1\<close>; the error of \<^verbatim>\<open>Quit\<close> carries the combined output.
\<close>

theorem Stuff_error_not_combined_output:
  "fst (CombinedOutput refusing screenExec [''-S'', ''banana'', ''-X'', ''stuff'', ''echo hi'']
          \<lparr>trace = [Lock 0, Run ''screen'' [''-ls'', ''banana'']], mutexes = Map.empty, allocated = 0\<rparr>)
     = (''out bad window'', Some ''exit status 1'')
   \<and> outcome (Stuff refusing banana [''echo'', ''hi''] initial)
      = (Err (ErrorString ''out exit status 1''),
         [Lock 0, Run ''screen'' [''-ls'', ''banana''],
          Run ''/usr/bin/screen'' [''-S'', ''banana'', ''-X'', ''stuff'', ''echo hi''], Unlock 0])
   \<and> outcome (Quit refusing banana initial)
      = (Err (ErrorString ''out bad window''),
         [Lock 0, Run ''screen'' [''-ls'', ''banana''],
          Run ''/usr/bin/screen'' [''-S'', ''banana'', ''-X'', ''quit''], Unlock 0])"
  by code_simp

text \<open>
  What \<^verbatim>\<open>Log\<close> does when \<^verbatim>\<open>os.Stat\<close> of the path fails, on a session with a mutex that
  the liveness check finds and with control commands that exit with status zero.  With
  \<open>append\<close> set it calls \<^verbatim>\<open>os.Truncate\<close>, drops its result and runs the three control
  commands, whatever the error was.  Without \<open>append\<close> it returns an error that is not
  the error of a missing file, before any control command.
\<close>

lemma Log_on_failed_stat:
  assumes "Mutex s = Some m"
    and "Get e (Name s) (emit (Lock m) st) = (Ok s', st1)"
    and "stat e (trace st1) path = Some errno"
    and "\<forall>tr args. failure (command e tr screenExec args) = None"
  shows "outcome (Log e s path True flushInterval st)
           = (Ok (),
              trace st1 @
              [Stat path, Truncate path,
               Run screenExec [''-S'', Name s, ''-X'', ''logfile'', path],
               Run screenExec [''-S'', Name s, ''-X'', ''logfile'', ''flush'', Itoa (sint flushInterval)],
               Run screenExec [''-S'', Name s, ''-X'', ''log'', if path = [] then ''off'' else ''on''],
               Unlock m])
         \<and> (errno \<noteq> ENOENT \<longrightarrow>
              outcome (Log e s path False flushInterval st)
                = (Err (PathError ''stat'' path errno), trace st1 @ [Stat path, Unlock m]))"
  using assms
  by (simp add: Log_def locked_def isOnline_found os_Stat_def control_ok Let_def emit_def)

text \<open>
  C6.  The claim fails on the code in its second half.  \<^verbatim>\<open>os.Stat\<close> of the path fails with
  \<^verbatim>\<open>EACCES\<close>, which is not the error of a missing file, and \<open>append\<close> is set: \<^verbatim>\<open>Log\<close> does
  not return that error; it calls \<^verbatim>\<open>os.Truncate\<close>, runs the three control commands and
  succeeds.  The branch that returns the error is reached only without \<open>append\<close>: the
  same call without \<open>append\<close> returns the error of \<^verbatim>\<open>os.Stat\<close> and runs no control
  command.
\<close>

theorem Log_append_hides_stat_error:
  "outcome (Log unreadable banana ''/root/log'' True 10 initial)
     = (Ok (),
        [Lock 0, Run ''screen'' [''-ls'', ''banana''], Stat ''/root/log'', Truncate ''/root/log'',
         Run ''/usr/bin/screen'' [''-S'', ''banana'', ''-X'', ''logfile'', ''/root/log''],
         Run ''/usr/bin/screen'' [''-S'', ''banana'', ''-X'', ''logfile'', ''flush'', ''10''],
         Run ''/usr/bin/screen'' [''-S'', ''banana'', ''-X'', ''log'', ''on''], Unlock 0])
   \<and> outcome (Log unreadable banana ''/root/log'' False 10 initial)
     = (Err (PathError ''stat'' ''/root/log'' 13),
        [Lock 0, Run ''screen'' [''-ls'', ''banana''], Stat ''/root/log'', Unlock 0])"
  by code_simp

text \<open>
  The pattern of \<^verbatim>\<open>Exec\<close> starts with a slash, so it matches no text without one.  On a
  session with a mutex that the liveness check finds, \<^verbatim>\<open>Exec\<close> with a non-empty \<open>fdpat\<close>
  that the pattern does not match returns the validation error after the listing of the
  liveness check, and runs no control command.
\<close>

lemma run_fdpat_rx_Nil: "run fdpat_rx (b, [], caps) = []"
  by (simp add: fdpat_rx_def)

lemma run_fdpat_rx_no_slash: "x \<noteq> CHR ''/'' \<Longrightarrow> run fdpat_rx (b, x # xs, caps) = []"
  by (simp add: fdpat_rx_def)

lemma search_fdpat_rx_no_slash: "CHR ''/'' \<notin> set s \<Longrightarrow> search fdpat_rx b s = None"
  by (induction s arbitrary: b) (auto simp: run_fdpat_rx_Nil run_fdpat_rx_no_slash)

lemma fdpat_without_slash_rejected: "CHR ''/'' \<notin> set fdpat \<Longrightarrow> \<not> MatchString fdpat_rx fdpat"
  by (simp add: MatchString_def search_fdpat_rx_no_slash)

lemma Exec_rejected_fdpat:
  assumes "Mutex s = Some m"
    and "Get e (Name s) (emit (Lock m) st) = (Ok s', st1)"
    and "fdpat \<noteq> []"
    and "\<not> MatchString fdpat_rx fdpat"
  shows "outcome (Exec e s fdpat cmd args st)
           = (Err (SyscallError ErrInvalid_text ''invalid fdpat''),
              trace st @ [Lock m, Run ''screen'' [''-ls'', Name s], Unlock m])"
  using assms Get_trace [OF assms(2)]
  by (simp add: Exec_def locked_def isOnline_found emit_def)

text \<open>
  C7.  The claim fails on the code.  The pattern \<^verbatim>\<open>bad/\<close> is not empty and is outside the
  grammar, yet \<^verbatim>\<open>Exec\<close> does not return a validation error: the pattern of the code is
  not anchored at the start and begins with a slash, it matches the final slash, and
  \<^verbatim>\<open>Exec\<close> runs the control command \<^verbatim>\<open>exec\<close> with it.  The pattern \<^verbatim>\<open>!..|\<close>, which is in the
  grammar, is refused for want of a slash.  Where \<^verbatim>\<open>Exec\<close> does refuse a pattern, as for
  \<^verbatim>\<open>bad\<close>, the listing of the liveness check has already been run.
\<close>

theorem Exec_accepts_fdpat_outside_grammar:
  "\<not> spec_fdpat_grammar ''bad/''
   \<and> outcome (Exec (answering (listing_of ''4242'' ''banana'')) banana ''bad/'' ''top'' [] initial)
      = (Ok (),
         [Lock 0, Run ''screen'' [''-ls'', ''banana''],
          Run ''/usr/bin/screen'' [''-S'', ''banana'', ''-X'', ''exec'', ''bad/'', ''top''], Unlock 0])
   \<and> spec_fdpat_grammar ''!..|''
   \<and> outcome (Exec (answering (listing_of ''4242'' ''banana'')) banana ''!..|'' ''top'' [] initial)
      = (Err (SyscallError ''invalid argument'' ''invalid fdpat''),
         [Lock 0, Run ''screen'' [''-ls'', ''banana''], Unlock 0])
   \<and> \<not> spec_fdpat_grammar ''bad''
   \<and> outcome (Exec (answering (listing_of ''4242'' ''banana'')) banana ''bad'' ''top'' [] initial)
      = (Err (SyscallError ''invalid argument'' ''invalid fdpat''),
         [Lock 0, Run ''screen'' [''-ls'', ''banana''], Unlock 0])"
  by code_simp

end
